theory Spec2Isabelle
  imports Complex_Main "HOL-Library.Word"
begin

unbundle bit_operations_syntax

section \<open>Particles: \<open>CellBody\<close>\<close>

text \<open>
  JavaScript numbers that hold coordinates, velocities and forces are modelled as
  reals; \<open>age\<close> and \<open>strokeId\<close> only ever hold integers. A \<open>SeedPos\<close> is the
  pair \<open>xy\<close>.
\<close>

type_synonym SeedPos = "real \<times> real"

record CellBody =
  srcx :: real
  srcy :: real
  dstx :: real
  dsty :: real
  velx :: real
  vely :: real
  accx :: real
  accy :: real
  dstForce :: real
  age :: int
  strokeId :: int

definition PERSONAL_SPACE :: real where
  "PERSONAL_SPACE = 0.95"

definition MAX_VELOCITY :: real where
  "MAX_VELOCITY = 6.0"

definition ALIGNMENT_FACTOR :: real where
  "ALIGNMENT_FACTOR = 0.8"

definition clamp :: "real \<Rightarrow> real \<Rightarrow> real \<Rightarrow> real" where
  "clamp v lo hi = max lo (min hi v)"

definition newCellBody :: "real \<Rightarrow> real \<Rightarrow> real \<Rightarrow> real \<Rightarrow> real \<Rightarrow> CellBody" where
  "newCellBody sx sy dx dy f =
     \<lparr>srcx = sx, srcy = sy, dstx = dx, dsty = dy, velx = 0, vely = 0,
      accx = 0, accy = 0, dstForce = f, age = 0, strokeId = 0\<rparr>"

text \<open>\<open>CellBody.update(pos)\<close>: Euler step; returns the cell and the position it wrote.\<close>

definition update :: "CellBody \<Rightarrow> SeedPos \<Rightarrow> CellBody \<times> SeedPos" where
  "update c pos =
     (let vx = (velx c + accx c) * 0.97;
          vy = (vely c + accy c) * 0.97
      in (c\<lparr>velx := vx, vely := vy, accx := 0, accy := 0, age := age c + 1\<rparr>,
          (fst pos + clamp vx (- MAX_VELOCITY) MAX_VELOCITY,
           snd pos + clamp vy (- MAX_VELOCITY) MAX_VELOCITY)))"

text \<open>
  \<open>applyNeighbourForce\<close>. The jitter of two coincident cells is computed in the source
  from the bit pattern of the position (\<open>posToBits\<close>, \<open>seededRandom\<close>); it is taken
  here as a function \<open>jit\<close> of the position giving the two pseudo-random numbers.
  The result is the cell and the returned weight.
\<close>

definition applyNeighbourForce ::
  "(SeedPos \<Rightarrow> real \<times> real) \<Rightarrow> CellBody \<Rightarrow> SeedPos \<Rightarrow> SeedPos \<Rightarrow> real \<Rightarrow> CellBody \<times> real" where
  "applyNeighbourForce jit c pos other pixelSize =
     (let dx = fst other - fst pos;
          dy = snd other - snd pos;
          dist = sqrt (dx * dx + dy * dy);
          personalSpace = pixelSize * PERSONAL_SPACE;
          weight = (if dist > 0 \<and> dist < personalSpace
                    then (1 / dist) * ((personalSpace - dist) / personalSpace) else 0);
          c' = (if dist > 0 \<and> dist < personalSpace
                then c\<lparr>accx := accx c - dx * weight, accy := accy c - dy * weight\<rparr>
                else if dist = 0
                then c\<lparr>accx := accx c + (fst (jit pos) - 0.5) * 0.1,
                       accy := accy c + (snd (jit pos) - 0.5) * 0.1\<rparr>
                else c)
      in (c', max 0 weight))"

definition applyStrokeAttraction :: "CellBody \<Rightarrow> SeedPos \<Rightarrow> SeedPos \<Rightarrow> real \<Rightarrow> CellBody" where
  "applyStrokeAttraction c pos otherCell weight =
     c\<lparr>accx := accx c + (fst otherCell - fst pos) * weight * ALIGNMENT_FACTOR,
       accy := accy c + (snd otherCell - snd pos) * weight * ALIGNMENT_FACTOR\<rparr>"

section \<open>The simulation: \<open>Sim\<close>\<close>

record Sim =
  cells :: "CellBody list"
  name :: string
  reversed :: bool

datatype js_error = TypeError

text \<open>
  The body of the innermost loop of \<open>Sim.update\<close> for cell \<open>i\<close> and a neighbour
  \<open>other \<noteq> i\<close> taken from the grid: neighbour force, stroke attraction, and the sums
  for velocity alignment. The accumulator is \<open>(cells, avgXvel, avgYvel, count)\<close>.
  The indices come from the grid, which holds indices of positions; they are taken
  to be indices of cells as well (the two arrays have the same length).
\<close>

definition interact ::
  "(SeedPos \<Rightarrow> real \<times> real) \<Rightarrow> SeedPos list \<Rightarrow> real \<Rightarrow> nat \<Rightarrow> nat \<Rightarrow>
   CellBody list \<times> real \<times> real \<times> real \<Rightarrow> CellBody list \<times> real \<times> real \<times> real" where
  "interact jit positions pixelSize i other acc =
     (case acc of (cs, avgXvel, avgYvel, count) \<Rightarrow>
        if other = i then acc
        else
          let (c1, weight) = applyNeighbourForce jit (cs ! i) (positions ! i) (positions ! other) pixelSize;
              cs1 = cs[i := c1];
              cs2 = (if strokeId (cs1 ! i) = strokeId (cs1 ! other)
                     then cs1[i := applyStrokeAttraction (cs1 ! i) (positions ! i) (positions ! other) weight]
                     else cs1)
          in (cs2, avgXvel + velx (cs2 ! other) * weight,
              avgYvel + vely (cs2 ! other) * weight, count + weight))"

text \<open>
  \<open>preparePlay\<close> and \<open>switch\<close>. Writing \<open>positions[i].xy\<close> throws when the positions
  array is shorter than the cell array; what was written before the throw stays
  written, so the loops return the arrays as they are at that moment and whether
  they threw.
\<close>

fun resetToSrc :: "CellBody list \<Rightarrow> SeedPos list \<Rightarrow> CellBody list \<times> SeedPos list \<times> bool" where
  "resetToSrc [] ps = ([], ps, False)"
| "resetToSrc (c # cs) [] = (c # cs, [], True)"
| "resetToSrc (c # cs) (p # ps) =
     (case resetToSrc cs ps of (cs', ps', e) \<Rightarrow>
        (c\<lparr>age := 0\<rparr> # cs', (srcx c, srcy c) # ps', e))"

fun moveToDst :: "CellBody list \<Rightarrow> SeedPos list \<Rightarrow> SeedPos list \<times> bool" where
  "moveToDst [] ps = (ps, False)"
| "moveToDst (c # cs) [] = ([], True)"
| "moveToDst (c # cs) (p # ps) =
     (case moveToDst cs ps of (ps', e) \<Rightarrow> ((dstx c, dsty c) # ps', e))"

definition switchCell :: "CellBody \<Rightarrow> CellBody" where
  "switchCell c = c\<lparr>srcx := dstx c, dstx := srcx c, srcy := dsty c, dsty := srcy c, age := 0\<rparr>"

definition switch :: "Sim \<Rightarrow> Sim" where
  "switch s = s\<lparr>cells := map switchCell (cells s), reversed := \<not> reversed s\<rparr>"

definition preparePlay :: "Sim \<Rightarrow> SeedPos list \<Rightarrow> bool \<Rightarrow> js_error option \<times> Sim \<times> SeedPos list" where
  "preparePlay s positions reverse =
     (if reversed s = reverse
      then (case resetToSrc (cells s) positions of (cs', ps', e) \<Rightarrow>
              (if e then Some TypeError else None, s\<lparr>cells := cs'\<rparr>, ps'))
      else (case moveToDst (cells s) positions of (ps', e) \<Rightarrow>
              if e then (Some TypeError, s, ps') else (None, switch s, ps')))"

definition endpoints :: "CellBody \<Rightarrow> real \<times> real \<times> real \<times> real" where
  "endpoints c = (srcx c, srcy c, dstx c, dsty c)"

text \<open>Two cells that swap places, and two cells that never belonged to a stroke.\<close>

definition cellA :: CellBody where
  "cellA = newCellBody 0.5 0.5 1.5 0.5 0.13"

definition cellB :: CellBody where
  "cellB = newCellBody 1.5 0.5 0.5 0.5 0.13"

definition simAB :: Sim where
  "simAB = \<lparr>cells = [cellA, cellB], name = ''demo'', reversed = False\<rparr>"

definition strokeless :: "CellBody list" where
  "strokeless = [newCellBody 0 0 0 0 0.13, newCellBody 0 0 0 0 0.13]"

definition nearby :: "SeedPos list" where
  "nearby = [(0, 0), (1 / 2, 0)]"

section \<open>Images: \<open>extractRGB\<close>, \<open>applyCropScale\<close>, \<open>makeNewImage\<close>\<close>

text \<open>
  A \<open>Uint8Array\<close> is a list of bytes. The fields of \<open>CropScale\<close> and of the presets
  carry a prefix where the source's name would clash with another constant.
\<close>

type_synonym bytes = "8 word list"

record CropScale =
  cs_scale :: real
  cs_x :: real
  cs_y :: real

record UnprocessedPreset =
  presetName :: string
  width :: nat
  height :: nat
  sourceImg :: bytes

text \<open>
  The browser's canvas is the environment of \<open>applyCropScale\<close>. \<open>canvasCrop\<close> stands for
  the statements that build the RGBA copy of the source, put it on a temporary canvas
  and cut the square \<open>(x0, y0, cropSide, cropSide)\<close> out of it; \<open>canvasResize\<close> for the
  smoothed \<open>drawImage\<close> onto a canvas of the target side followed by \<open>getImageData\<close>,
  whose result is the RGBA data read back. Either is \<open>None\<close> when a DOM call throws,
  as every one does where there is no \<open>document\<close>.
\<close>

record canvas_env =
  canvasCrop :: "bytes \<Rightarrow> nat \<Rightarrow> nat \<Rightarrow> int \<Rightarrow> int \<Rightarrow> nat \<Rightarrow> bytes option"
  canvasResize :: "bytes \<Rightarrow> nat \<Rightarrow> nat \<Rightarrow> bytes option"

datatype dom_error = DOMException

text \<open>
  The copy loop at the end of \<open>applyCropScale\<close>: three bytes out of every four. A read
  past the end of the data is \<open>undefined\<close>, stored in a \<open>Uint8Array\<close> as 0.
\<close>

fun rgbaToRgb :: "bytes \<Rightarrow> bytes" where
  "rgbaToRgb (r # g # b # a # rest) = r # g # b # rgbaToRgb rest"
| "rgbaToRgb [r, g, b] = [r, g, b]"
| "rgbaToRgb [r, g] = [r, g, 0]"
| "rgbaToRgb [r] = [r, 0, 0]"
| "rgbaToRgb [] = []"

text \<open>
  Writing into a \<open>Uint8Array\<close> of fixed length \<open>n\<close>: what is written past the end is
  dropped, what is never written stays 0.
\<close>

definition intoArray :: "nat \<Rightarrow> bytes \<Rightarrow> bytes" where
  "intoArray n xs = take n (xs @ replicate n 0)"

definition cropSideOf :: "nat \<Rightarrow> nat \<Rightarrow> CropScale \<Rightarrow> nat" where
  "cropSideOf sourceWidth sourceHeight cropScale =
     (let s = max 1 (cs_scale cropScale);
          baseSide = min sourceWidth sourceHeight
      in nat \<lfloor>max 1 (min (real baseSide / s) (min (real sourceWidth) (real sourceHeight)))\<rfloor>)"

definition applyCropScale ::
  "canvas_env \<Rightarrow> bytes \<Rightarrow> nat \<Rightarrow> nat \<Rightarrow> nat \<Rightarrow> CropScale \<Rightarrow> dom_error + bytes" where
  "applyCropScale env img sourceWidth sourceHeight targetSideLen cropScale =
     (let cropSide = cropSideOf sourceWidth sourceHeight cropScale;
          maxOffX = max 0 (int sourceWidth - int cropSide);
          maxOffY = max 0 (int sourceHeight - int cropSide);
          xn = clamp (cs_x cropScale) (- 1) 1 * 0.5 + 0.5;
          yn = clamp (cs_y cropScale) (- 1) 1 * 0.5 + 0.5;
          x0 = \<lfloor>xn * real_of_int maxOffX\<rfloor>;
          y0 = \<lfloor>yn * real_of_int maxOffY\<rfloor>
      in case canvasCrop env img sourceWidth sourceHeight x0 y0 cropSide of
           None \<Rightarrow> Inl DOMException
         | Some cropped \<Rightarrow>
             if cropSide = targetSideLen then Inr img
             else (case canvasResize env cropped cropSide targetSideLen of
                     None \<Rightarrow> Inl DOMException
                   | Some resized \<Rightarrow>
                       Inr (intoArray (targetSideLen * targetSideLen * 3) (rgbaToRgb resized))))"

text \<open>
  \<open>extractRGB\<close>: one pixel per three bytes. A channel read past the end of the buffer
  is \<open>undefined\<close>, which is \<open>None\<close> here and turns every sum it enters into NaN.
\<close>

type_synonym rgb = "int option \<times> int option \<times> int option"

fun extractRGB :: "bytes \<Rightarrow> rgb list" where
  "extractRGB (r # g # b # rest) = (Some (uint r), Some (uint g), Some (uint b)) # extractRGB rest"
| "extractRGB [r, g] = [(Some (uint r), Some (uint g), None)]"
| "extractRGB [r] = [(Some (uint r), None, None)]"
| "extractRGB [] = []"

text \<open>
  \<open>makeNewImage\<close>: the colour of the source pixel \<open>assignments[targetIdx]\<close> at every
  target position. Destructuring a source pixel that is not there throws.
\<close>

definition channelByte :: "int option \<Rightarrow> 8 word" where
  "channelByte c = (case c of None \<Rightarrow> 0 | Some v \<Rightarrow> of_int v)"

fun pixelBytes :: "rgb list \<Rightarrow> nat list \<Rightarrow> bytes option" where
  "pixelBytes sourcePixels [] = Some []"
| "pixelBytes sourcePixels (sourceIdx # rest) =
     (if sourceIdx < length sourcePixels
      then (case sourcePixels ! sourceIdx of (r, g, b) \<Rightarrow>
              map_option (\<lambda>tl. channelByte r # channelByte g # channelByte b # tl)
                (pixelBytes sourcePixels rest))
      else None)"

definition makeNewImage :: "rgb list \<Rightarrow> nat list \<Rightarrow> nat \<Rightarrow> nat \<Rightarrow> bytes option" where
  "makeNewImage sourcePixels assignments w0 h0 =
     map_option (intoArray (w0 * h0 * 3)) (pixelBytes sourcePixels assignments)"

text \<open>A wide source, two pixels by one, and the crop parameters that change nothing.\<close>

definition wideImg :: bytes where
  "wideImg = [10, 20, 30, 40, 50, 60]"

definition noCrop :: CropScale where
  "noCrop = \<lparr>cs_scale = 1, cs_x = 0, cs_y = 0\<rparr>"

section \<open>Math kernels: \<open>heuristic\<close>, \<open>hashCode\<close>, \<open>SeededRNG\<close>\<close>

text \<open>
  The numbers of the solvers are integers as long as every byte read is defined; they
  are modelled as \<open>int\<close>, with \<open>None\<close> for NaN (an \<open>undefined\<close> channel entering a
  sum). A double holds these integers exactly below \<open>2 ^ 53\<close>.
\<close>

type_synonym num = "int option"

definition num2 :: "(int \<Rightarrow> int \<Rightarrow> int) \<Rightarrow> num \<Rightarrow> num \<Rightarrow> num" where
  "num2 f a b = (case a of None \<Rightarrow> None | Some u \<Rightarrow> (case b of None \<Rightarrow> None | Some v \<Rightarrow> Some (f u v)))"

definition sqDiff :: "num \<Rightarrow> num \<Rightarrow> num" where
  "sqDiff a b = num2 (\<lambda>u v. (u - v) ^ 2) a b"

text \<open>\<open>v > 0\<close> on numbers: false for NaN.\<close>

definition positive :: "num \<Rightarrow> bool" where
  "positive v = (case v of None \<Rightarrow> False | Some u \<Rightarrow> 0 < u)"

definition heuristic :: "int \<times> int \<Rightarrow> int \<times> int \<Rightarrow> rgb \<Rightarrow> rgb \<Rightarrow> num \<Rightarrow> int \<Rightarrow> num" where
  "heuristic apos bpos a b colorWeight spatialWeight =
     (let spatial = (fst apos - fst bpos) ^ 2 + (snd apos - snd bpos) ^ 2;
          color = num2 (+) (num2 (+) (sqDiff (fst a) (fst b)) (sqDiff (fst (snd a)) (fst (snd b))))
                    (sqDiff (snd (snd a)) (snd (snd b)))
      in num2 (+) (num2 (*) color colorWeight) (Some ((spatial * spatialWeight) ^ 2)))"

text \<open>
  \<open>hashCode\<close>: \<open>hash & hash\<close> truncates to 32 bits after every character, so the loop is
  arithmetic on 32-bit words; \<open>Math.abs\<close> reads the word as a signed number.
\<close>

definition hashStep :: "32 word \<Rightarrow> char \<Rightarrow> 32 word" where
  "hashStep hash c = push_bit 5 hash - hash + of_nat (of_char c)"

definition hashCode :: "string \<Rightarrow> nat" where
  "hashCode str = nat \<bar>sint (foldl hashStep 0 str)\<bar>"

text \<open>
  \<open>SeededRNG\<close>. The field \<open>state\<close> is a double that is never truncated: each call adds
  \<open>0x6d2b79f5\<close> to it, so it is a natural number, rounded to 53 significant bits (to
  nearest, ties to even) once it exceeds \<open>2 ^ 53\<close>. The bit operations convert it to 32
  bits.
\<close>

fun bitLength :: "nat \<Rightarrow> nat" where
  "bitLength n = (if n = 0 then 0 else Suc (bitLength (n div 2)))"

declare bitLength.simps [simp del]

definition fl53 :: "nat \<Rightarrow> nat" where
  "fl53 n =
     (if n < 2 ^ 53 then n
      else let e = bitLength n - 53;
               q = n div 2 ^ e;
               r = n mod 2 ^ e
           in if r < 2 ^ (e - 1) \<or> (r = 2 ^ (e - 1) \<and> even q) then q * 2 ^ e
              else (q + 1) * 2 ^ e)"

text \<open>\<open>next()\<close> returns \<open>u / 4294967296\<close>; the model returns the 32-bit number \<open>u\<close>.\<close>

definition rngNext :: "nat \<Rightarrow> nat \<times> nat" where
  "rngNext state =
     (let state' = fl53 (state + 0x6d2b79f5);
          t0 = (of_nat state' :: 32 word);
          t1 = (t0 XOR drop_bit 15 t0) * (t0 OR 1);
          t2 = t1 XOR (t1 + (t1 XOR drop_bit 7 t1) * (t1 OR 61))
      in (unat (t2 XOR drop_bit 14 t2), state'))"

text \<open>
  \<open>range(min, max) = Math.floor(next() * (max - min)) + min\<close>. The product of
  \<open>u / 2 ^ 32\<close> and the integer \<open>max - min\<close> is rounded to 53 bits before the floor.
\<close>

definition range :: "nat \<Rightarrow> int \<Rightarrow> int \<Rightarrow> int \<times> nat" where
  "range state lo hi =
     (case rngNext state of (u, state') \<Rightarrow>
        ((if lo \<le> hi then int (fl53 (u * nat (hi - lo))) div 2 ^ 32
          else (- int (fl53 (u * nat (lo - hi)))) div 2 ^ 32) + lo, state'))"

section \<open>The assignment optimizer\<close>

datatype Algorithm = Optimal | Genetic

record GenerationSettings =
  settingsId :: string
  settingsName :: string
  proximityImportance :: int
  algorithm :: Algorithm
  sidelen :: nat
  customTarget :: "UnprocessedPreset option"
  targetCropScale :: CropScale
  sourceCropScale :: CropScale

text \<open>
  The pixel record of the drawing solver has \<open>srcX\<close>, \<open>srcY\<close> and \<open>h\<close>; the one of the
  Genetic solver has \<open>rgb\<close> as well.
\<close>

record DrawPixel =
  srcX :: nat
  srcY :: nat
  h :: num

record Pixel = DrawPixel +
  rgb :: rgb

text \<open>Reading an array: \<open>None\<close> is \<open>undefined\<close>.\<close>

definition nthOpt :: "'a list \<Rightarrow> nat \<Rightarrow> 'a option" where
  "nthOpt xs i = (if i < length xs then Some (xs ! i) else None)"

text \<open>Reading a number out of an array of numbers: \<open>undefined\<close> becomes NaN in arithmetic.\<close>

definition numAt :: "int list \<Rightarrow> nat \<Rightarrow> num" where
  "numAt xs i = (if i < length xs then Some (xs ! i) else None)"

text \<open>The \<open>clamp\<close> declared inside \<open>processGenetic\<close>, on integers.\<close>

definition clampI :: "int \<Rightarrow> int \<Rightarrow> int \<Rightarrow> int" where
  "clampI v lo hi = max lo (min hi v)"

text \<open>
  The result of a solver: the \<open>done\<close> message with the assignments and the source image
  it carries, \<open>cancelled\<close>, \<open>error\<close> (the entry point catches what the solver throws),
  or a return without a final message.
\<close>

datatype outcome = Done "nat list" bytes | Cancelled | Error | NoMessage

text \<open>
  The initial pixels: \<open>sourcePixels.map((rgb, i) => ...)\<close>. \<open>heuristic\<close> reads
  \<open>b[0]\<close> of \<open>targetPixels[i]\<close>, which throws when that is \<open>undefined\<close>.
\<close>

fun initPixels :: "nat \<Rightarrow> int \<Rightarrow> rgb list \<Rightarrow> int list \<Rightarrow> nat \<Rightarrow> rgb list \<Rightarrow> Pixel list option" where
  "initPixels S prox targetPixels weights i [] = Some []"
| "initPixels S prox targetPixels weights i (p # ps) =
     (case nthOpt targetPixels i of
        None \<Rightarrow> None
      | Some t \<Rightarrow>
          (case initPixels S prox targetPixels weights (Suc i) ps of
             None \<Rightarrow> None
           | Some rest \<Rightarrow>
               Some (\<lparr>srcX = i mod S, srcY = i div S,
                      h = heuristic (int (i mod S), int (i div S)) (int (i mod S), int (i div S))
                            p t (numAt weights i) prox,
                      rgb = p\<rparr> # rest)))"

text \<open>
  One trial of the Genetic solver, after the positions are drawn: the two heuristics,
  the test, and the swap. \<open>a\<close> is at \<open>apos\<close>, \<open>b\<close> at column \<open>bx\<close> and row \<open>by\<close>.
  Reading \<open>.rgb\<close> or \<open>.h\<close> of a pixel that is not there, or a channel of a target
  pixel that is not there, throws. The side \<open>S\<close> is positive whenever there is a pixel
  to draw (lemma \<open>prepare_sidelen_pos\<close>), so \<open>apos % S\<close> is a number.
\<close>

definition swapTrial ::
  "int \<Rightarrow> rgb list \<Rightarrow> int list \<Rightarrow> nat \<Rightarrow> Pixel list \<Rightarrow> nat \<Rightarrow> int \<Rightarrow> int \<Rightarrow>
   js_error + Pixel list \<times> bool" where
  "swapTrial prox targetPixels weights S pixels apos bx by =
     (let ax = int (apos mod S);
          ay = int (apos div S);
          bpos = nat (by * int S + bx)
      in case (nthOpt targetPixels apos, nthOpt targetPixels bpos, nthOpt pixels apos, nthOpt pixels bpos) of
           (Some tA, Some tB, Some pa, Some pb) \<Rightarrow>
             (let aOnBH = heuristic (bx, by) (ax, ay) (rgb pa) tB (numAt weights bpos) prox;
                  bOnAH = heuristic (ax, ay) (bx, by) (rgb pb) tA (numAt weights apos) prox;
                  improvementA = num2 (-) (h pa) bOnAH;
                  improvementB = num2 (-) (h pb) aOnBH
              in if positive (num2 (+) improvementA improvementB)
                 then Inr (pixels[apos := pb\<lparr>h := aOnBH\<rparr>, bpos := pa\<lparr>h := bOnAH\<rparr>], True)
                 else Inr (pixels, False))
         | _ \<Rightarrow> Inl TypeError)"

text \<open>Drawing the positions of a trial: \<open>apos\<close>, then \<open>bx\<close> and \<open>by\<close> near it, clamped.\<close>

definition samplePositions :: "nat \<Rightarrow> nat \<Rightarrow> int \<Rightarrow> nat \<Rightarrow> (nat \<times> int \<times> int) \<times> nat" where
  "samplePositions n S maxDist rng =
     (case range rng 0 (int n) of (apos, rng1) \<Rightarrow>
      case range rng1 (- maxDist) (maxDist + 1) of (dx, rng2) \<Rightarrow>
      case range rng2 (- maxDist) (maxDist + 1) of (dy, rng3) \<Rightarrow>
        ((nat apos,
          clampI (apos mod int S + dx) 0 (int S - 1),
          clampI (apos div int S + dy) 0 (int S - 1)), rng3))"

text \<open>The state of a generation: the pixels, \<open>swapsMade\<close>, and the state of the generator.\<close>

type_synonym gen_state = "Pixel list \<times> nat \<times> nat"

definition trial :: "int \<Rightarrow> rgb list \<Rightarrow> int list \<Rightarrow> nat \<Rightarrow> int \<Rightarrow> gen_state \<Rightarrow> js_error + gen_state" where
  "trial prox targetPixels weights S maxDist st =
     (case st of (pixels, swapsMade, rng) \<Rightarrow>
      case samplePositions (length pixels) S maxDist rng of ((apos, bx, by), rng') \<Rightarrow>
      case swapTrial prox targetPixels weights S pixels apos bx by of
        Inl e \<Rightarrow> Inl e
      | Inr (pixels', swapped) \<Rightarrow> Inr (pixels', if swapped then Suc swapsMade else swapsMade, rng'))"

fun runTrials ::
  "nat \<Rightarrow> int \<Rightarrow> rgb list \<Rightarrow> int list \<Rightarrow> nat \<Rightarrow> int \<Rightarrow> gen_state \<Rightarrow> js_error + gen_state" where
  "runTrials 0 prox targetPixels weights S maxDist st = Inr st"
| "runTrials (Suc k) prox targetPixels weights S maxDist st =
     (case trial prox targetPixels weights S maxDist st of
        Inl e \<Rightarrow> Inl e
      | Inr st' \<Rightarrow> runTrials k prox targetPixels weights S maxDist st')"

definition assignmentsOf :: "nat \<Rightarrow> Pixel list \<Rightarrow> nat list" where
  "assignmentsOf S pixels = map (\<lambda>p. srcY p * S + srcX p) pixels"

text \<open>
  The outer loop of \<open>processGenetic\<close>. It may run for ever, so it takes fuel: \<open>None\<close>
  is a loop still running when the fuel is spent. The flag \<open>cancelFlag.cancelled\<close>
  belongs to the caller, who can change it while a message is being posted:
  \<open>cancel k\<close> is its value after the \<open>k\<close>-th message of the run. Every generation posts
  the preview and, unless it was the last, the progress.
\<close>

fun generations ::
  "nat \<Rightarrow> (nat \<Rightarrow> bool) \<Rightarrow> nat \<Rightarrow> int \<Rightarrow> rgb list \<Rightarrow> int list \<Rightarrow> nat \<Rightarrow> bytes \<Rightarrow>
   int \<Rightarrow> Pixel list \<Rightarrow> nat \<Rightarrow> outcome option" where
  "generations 0 cancel posted prox targetPixels weights S img maxDist pixels rng = None"
| "generations (Suc fuel) cancel posted prox targetPixels weights S img maxDist pixels rng =
     (if cancel posted then Some Cancelled
      else case runTrials (128 * length pixels) prox targetPixels weights S maxDist (pixels, 0, rng) of
             Inl e \<Rightarrow> Some Error
           | Inr (pixels', swapsMade, rng') \<Rightarrow>
               if maxDist < 4 \<and> swapsMade < 10
               then (if cancel (posted + 1) then Some Cancelled
                     else Some (Done (assignmentsOf S pixels') img))
               else generations fuel cancel (posted + 2) prox targetPixels weights S img
                      (max 2 (maxDist * 99 div 100)) pixels' rng')"

text \<open>The target pixels of a solver: the custom target cropped and scaled, or the source.\<close>

definition targetOf :: "canvas_env \<Rightarrow> GenerationSettings \<Rightarrow> rgb list \<Rightarrow> dom_error + rgb list" where
  "targetOf env settings sourcePixels =
     (case customTarget settings of
        None \<Rightarrow> Inr sourcePixels
      | Some t \<Rightarrow>
          (case applyCropScale env (sourceImg t) (width t) (height t) (sidelen settings)
                  (targetCropScale settings) of
             Inl e \<Rightarrow> Inl e
           | Inr timg \<Rightarrow> Inr (extractRGB timg)))"

text \<open>
  What \<open>processGenetic\<close> computes before its loop: the cropped source image, the target
  pixels, the weights and the initial pixels. \<open>None\<close> when a statement throws.
\<close>

definition prepare ::
  "canvas_env \<Rightarrow> UnprocessedPreset \<Rightarrow> GenerationSettings \<Rightarrow>
   (bytes \<times> rgb list \<times> int list \<times> Pixel list) option" where
  "prepare env source settings =
     (case applyCropScale env (sourceImg source) (width source) (height source) (sidelen settings)
             (sourceCropScale settings) of
        Inl e \<Rightarrow> None
      | Inr img \<Rightarrow>
          (case targetOf env settings (extractRGB img) of
             Inl e \<Rightarrow> None
           | Inr targetPixels \<Rightarrow>
               (let weights = replicate (length targetPixels) 255
                in case initPixels (sidelen settings) (proximityImportance settings) targetPixels
                          weights 0 (extractRGB img) of
                     None \<Rightarrow> None
                   | Some pixels \<Rightarrow> Some (img, targetPixels, weights, pixels))))"

definition processGenetic ::
  "canvas_env \<Rightarrow> (nat \<Rightarrow> bool) \<Rightarrow> nat \<Rightarrow> UnprocessedPreset \<Rightarrow> GenerationSettings \<Rightarrow> outcome option" where
  "processGenetic env cancel fuel source settings =
     (case prepare env source settings of
        None \<Rightarrow> Some Error
      | Some (img, targetPixels, weights, pixels) \<Rightarrow>
          generations fuel cancel 0 (proximityImportance settings) targetPixels weights
            (sidelen settings) img (int (sidelen settings)) pixels
            (hashCode (settingsId settings)))"

text \<open>
  The Greedy solver. The inner loop keeps \<open>(bestSrcIdx, bestScore)\<close>, \<open>None\<close> standing
  for the initial \<open>(-1, Infinity)\<close>; a NaN score is never less than the best.
\<close>

definition betterScore :: "num \<Rightarrow> (nat \<times> int) option \<Rightarrow> bool" where
  "betterScore score best =
     (case score of
        None \<Rightarrow> False
      | Some v \<Rightarrow> (case best of None \<Rightarrow> True | Some (i, bestScore) \<Rightarrow> v < bestScore))"

fun pickBest ::
  "int \<Rightarrow> rgb list \<Rightarrow> rgb option \<Rightarrow> num \<Rightarrow> nat \<Rightarrow> nat \<Rightarrow> nat set \<Rightarrow> nat list \<Rightarrow>
   (nat \<times> int) option \<Rightarrow> js_error + (nat \<times> int) option" where
  "pickBest prox sourcePixels targetColor weight S targetIdx assigned [] best = Inr best"
| "pickBest prox sourcePixels targetColor weight S targetIdx assigned (srcIdx # rest) best =
     (if srcIdx \<in> assigned
      then pickBest prox sourcePixels targetColor weight S targetIdx assigned rest best
      else case (nthOpt sourcePixels srcIdx, targetColor) of
             (Some sourceColor, Some tc) \<Rightarrow>
               (let score = heuristic (int (srcIdx mod S), int (srcIdx div S))
                              (int (targetIdx mod S), int (targetIdx div S))
                              sourceColor tc weight prox
                in pickBest prox sourcePixels targetColor weight S targetIdx assigned rest
                     (if betterScore score best then Some (srcIdx, the score) else best))
           | _ \<Rightarrow> Inl TypeError)"

text \<open>
  The loop over the targets: the state is the set \<open>assigned\<close>, the array
  \<open>assignments\<close> and the number of messages posted so far (two for every hundredth
  target), which is where the cancel flag is read.
\<close>

fun greedyLoop ::
  "(nat \<Rightarrow> bool) \<Rightarrow> int \<Rightarrow> rgb list \<Rightarrow> rgb list \<Rightarrow> int list \<Rightarrow> nat \<Rightarrow> nat \<Rightarrow> nat list \<Rightarrow>
   nat set \<times> nat list \<times> nat \<Rightarrow> outcome + nat set \<times> nat list \<times> nat" where
  "greedyLoop cancel prox sourcePixels targetPixels weights S n [] st = Inr st"
| "greedyLoop cancel prox sourcePixels targetPixels weights S n (targetIdx # rest) st =
     (case st of (assigned, assignments, posted) \<Rightarrow>
        if cancel posted then Inl Cancelled
        else case pickBest prox sourcePixels (nthOpt targetPixels targetIdx) (numAt weights targetIdx)
                    S targetIdx assigned [0..<n] None of
               Inl e \<Rightarrow> Inl Error
             | Inr best \<Rightarrow>
                 greedyLoop cancel prox sourcePixels targetPixels weights S n rest
                   (case best of
                      None \<Rightarrow> (assigned, assignments, if targetIdx mod 100 = 0 then posted + 2 else posted)
                    | Some (bestSrcIdx, bestScore) \<Rightarrow>
                        (insert bestSrcIdx assigned, assignments @ [bestSrcIdx],
                         if targetIdx mod 100 = 0 then posted + 2 else posted)))"

text \<open>\<open>while (assignments.length < n) assignments.push(assignments.length)\<close>.\<close>

definition fillIdentity :: "nat \<Rightarrow> nat list \<Rightarrow> nat list" where
  "fillIdentity n assignments = assignments @ [length assignments..<n]"

definition processOptimal ::
  "canvas_env \<Rightarrow> (nat \<Rightarrow> bool) \<Rightarrow> UnprocessedPreset \<Rightarrow> GenerationSettings \<Rightarrow> outcome" where
  "processOptimal env cancel source settings =
     (case applyCropScale env (sourceImg source) (width source) (height source) (sidelen settings)
             (sourceCropScale settings) of
        Inl e \<Rightarrow> Error
      | Inr img \<Rightarrow>
          (case targetOf env settings (extractRGB img) of
             Inl e \<Rightarrow> Error
           | Inr targetPixels \<Rightarrow>
               (let weights = replicate (length targetPixels) 255;
                    n = sidelen settings * sidelen settings
                in case greedyLoop cancel (proximityImportance settings) (extractRGB img) targetPixels
                          weights (sidelen settings) n [0..<n] ({}, [], 0) of
                     Inl out \<Rightarrow> out
                   | Inr (assigned, assignments, posted) \<Rightarrow>
                       if cancel posted then NoMessage
                       else Done (fillIdentity n assignments) img)))"

text \<open>
  The heuristic of an owner placed at position \<open>p\<close>: the owner's source position and
  colour against the position, the target colour and the weight of \<open>p\<close>. This is the
  value the initial \<open>map\<close> stores for every owner at its own position, and the score
  of the Greedy solver for a source pixel and a target position.
\<close>

definition placedH :: "int \<Rightarrow> rgb list \<Rightarrow> int list \<Rightarrow> nat \<Rightarrow> Pixel \<Rightarrow> nat \<Rightarrow> num" where
  "placedH prox targetPixels weights S px p =
     (case nthOpt targetPixels p of
        None \<Rightarrow> None
      | Some t \<Rightarrow>
          heuristic (int (srcX px), int (srcY px)) (int (p mod S), int (p div S))
            (rgb px) t (numAt weights p) prox)"

text \<open>The sum of that heuristic over all positions, each with the pixel it holds.\<close>

definition totalH :: "int \<Rightarrow> rgb list \<Rightarrow> int list \<Rightarrow> nat \<Rightarrow> Pixel list \<Rightarrow> num" where
  "totalH prox targetPixels weights S pixels =
     foldl (num2 (+)) (Some 0)
       (map (\<lambda>p. placedH prox targetPixels weights S (pixels ! p) p) [0..<length pixels])"

text \<open>
  A canvas on which no call throws; the runs below take the path that returns before
  anything read back from the canvas is used.
\<close>

definition quietCanvas :: canvas_env where
  "quietCanvas = \<lparr>canvasCrop = (\<lambda>img w0 h0 x0 y0 side. Some []), canvasResize = (\<lambda>img side S. Some [])\<rparr>"

text \<open>A source and a custom target of 2 by 2 pixels, and settings with \<open>id = "l"\<close>.\<close>

definition demoSource :: UnprocessedPreset where
  "demoSource = \<lparr>presetName = ''source'', width = 2, height = 2,
                  sourceImg = [10, 0, 0, 30, 0, 0, 0, 0, 0, 20, 0, 0]\<rparr>"

definition demoTarget :: UnprocessedPreset where
  "demoTarget = \<lparr>presetName = ''target'', width = 2, height = 2,
                  sourceImg = [10, 0, 0, 0, 0, 0, 10, 0, 0, 10, 0, 0]\<rparr>"

definition demoSettings :: GenerationSettings where
  "demoSettings = \<lparr>settingsId = ''l'', settingsName = ''demo'', proximityImportance = 1,
                    algorithm = Genetic, sidelen = 2, customTarget = Some demoTarget,
                    targetCropScale = noCrop, sourceCropScale = noCrop\<rparr>"

text \<open>The target pixels and the pixels of the first trials of that run.\<close>

definition demoTargetPixels :: "rgb list" where
  "demoTargetPixels = [(Some 10, Some 0, Some 0), (Some 0, Some 0, Some 0),
          (Some 10, Some 0, Some 0), (Some 10, Some 0, Some 0)]"

definition demoPixels :: "Pixel list" where
  "demoPixels = [\<lparr>srcX = 0, srcY = 0, h = Some 0, rgb = (Some 10, Some 0, Some 0)\<rparr>,
          \<lparr>srcX = 1, srcY = 0, h = Some 229500, rgb = (Some 30, Some 0, Some 0)\<rparr>,
          \<lparr>srcX = 0, srcY = 1, h = Some 25500, rgb = (Some 0, Some 0, Some 0)\<rparr>,
          \<lparr>srcX = 1, srcY = 1, h = Some 25500, rgb = (Some 20, Some 0, Some 0)\<rparr>]"

definition demoPixels1 :: "Pixel list" where
  "demoPixels1 = [\<lparr>srcX = 0, srcY = 0, h = Some 0, rgb = (Some 10, Some 0, Some 0)\<rparr>,
          \<lparr>srcX = 0, srcY = 1, h = Some 102004, rgb = (Some 0, Some 0, Some 0)\<rparr>,
          \<lparr>srcX = 1, srcY = 0, h = Some 4, rgb = (Some 30, Some 0, Some 0)\<rparr>,
          \<lparr>srcX = 1, srcY = 1, h = Some 25500, rgb = (Some 20, Some 0, Some 0)\<rparr>]"

definition demoPixels2 :: "Pixel list" where
  "demoPixels2 = [\<lparr>srcX = 0, srcY = 0, h = Some 0, rgb = (Some 10, Some 0, Some 0)\<rparr>,
          \<lparr>srcX = 1, srcY = 1, h = Some 25501, rgb = (Some 20, Some 0, Some 0)\<rparr>,
          \<lparr>srcX = 1, srcY = 0, h = Some 4, rgb = (Some 30, Some 0, Some 0)\<rparr>,
          \<lparr>srcX = 0, srcY = 1, h = Some 102001, rgb = (Some 0, Some 0, Some 0)\<rparr>]"

text \<open>A pixel all of whose channels were read inside the buffer.\<close>

definition definedRgb :: "rgb \<Rightarrow> bool" where
  "definedRgb c = (fst c \<noteq> None \<and> fst (snd c) \<noteq> None \<and> snd (snd c) \<noteq> None)"

text \<open>
  A source of 2 by 1 pixels asked for at side 1, and a source of a single pixel; both
  are their own target.
\<close>

definition wideSource :: UnprocessedPreset where
  "wideSource = \<lparr>presetName = ''wide'', width = 2, height = 1, sourceImg = wideImg\<rparr>"

definition wideSettings :: GenerationSettings where
  "wideSettings = \<lparr>settingsId = ''wide'', settingsName = ''wide'', proximityImportance = 13,
                    algorithm = Genetic, sidelen = 1, customTarget = None,
                    targetCropScale = noCrop, sourceCropScale = noCrop\<rparr>"



text \<open>
  The second scenario of the specification: a source of 2 by 2 pixels red, green, blue,
  black, and the target green, red, blue, black.
\<close>

definition swapSource :: UnprocessedPreset where
  "swapSource = \<lparr>presetName = ''rgbk'', width = 2, height = 2,
                  sourceImg = [255, 0, 0, 0, 255, 0, 0, 0, 255, 0, 0, 0]\<rparr>"

definition swapTarget :: UnprocessedPreset where
  "swapTarget = \<lparr>presetName = ''grbk'', width = 2, height = 2,
                  sourceImg = [0, 255, 0, 255, 0, 0, 0, 0, 255, 0, 0, 0]\<rparr>"

definition swapSettings :: GenerationSettings where
  "swapSettings = \<lparr>settingsId = ''swap'', settingsName = ''swap'', proximityImportance = 13,
                    algorithm = Optimal, sidelen = 2, customTarget = Some swapTarget,
                    targetCropScale = noCrop, sourceCropScale = noCrop\<rparr>"

text \<open>The sum of the values \<open>h\<close> stored in the pixels; NaN if one of them is.\<close>

definition storedTotal :: "Pixel list \<Rightarrow> num" where
  "storedTotal pixels = map_option sum_list (those (map h pixels))"

section \<open>The drawing solver\<close>

definition DRAWING_CANVAS_SIZE :: nat where
  "DRAWING_CANVAS_SIZE = 128"

definition STROKE_REWARD :: int where
  "STROKE_REWARD = - 10000000000"

record PixelData =
  pixelStrokeId :: int
  lastEdited :: int

type_synonym SeedColor = "real \<times> real \<times> real \<times> real"

text \<open>
  \<open>maxDist(age) = Math.round((DRAWING_CANVAS_SIZE / 4) * Math.pow(0.99, age / 30))\<close>, on
  the reals; \<open>Math.round\<close> rounds halves up, as \<open>round\<close> does.
\<close>

definition maxDist :: "int \<Rightarrow> int" where
  "maxDist a = round (real DRAWING_CANVAS_SIZE / 4 * (0.99 powr (real_of_int a / 30)))"

text \<open>\<open>0 - (pixelData[pos]?.lastEdited ?? 0)\<close>.\<close>

definition ageAt :: "PixelData list \<Rightarrow> nat \<Rightarrow> int" where
  "ageAt pixelData pos = 0 - (if pos < length pixelData then lastEdited (pixelData ! pos) else 0)"

text \<open>The colour of a seed as the solver reads it: each channel times 256, floored.\<close>

definition colorRgb :: "SeedColor \<Rightarrow> rgb" where
  "colorRgb c = (case c of (r, g, b, a) \<Rightarrow> (Some \<lfloor>r * 256\<rfloor>, Some \<lfloor>g * 256\<rfloor>, Some \<lfloor>b * 256\<rfloor>))"

text \<open>The pixel data of the pixel that owns a position; reading a field of \<open>undefined\<close> throws.\<close>

definition ownerData :: "PixelData list \<Rightarrow> DrawPixel list \<Rightarrow> nat \<Rightarrow> PixelData option" where
  "ownerData pixelData pixels pos =
     (case nthOpt pixels pos of
        None \<Rightarrow> None
      | Some p \<Rightarrow> nthOpt pixelData (srcX p + srcY p * DRAWING_CANVAS_SIZE))"

text \<open>
  \<open>strokeReward\<close>: the four neighbours of \<open>newPos\<close> in the order of the source; the first
  one inside the canvas whose owner has the stroke id of the owner of \<open>oldPos\<close> gives the
  reward.
\<close>

fun neighbourReward ::
  "PixelData list \<Rightarrow> DrawPixel list \<Rightarrow> int \<Rightarrow> int \<Rightarrow> int \<Rightarrow> (int \<times> int) list \<Rightarrow> js_error + int" where
  "neighbourReward pixelData pixels sid x0 y0 [] = Inr 0"
| "neighbourReward pixelData pixels sid x0 y0 ((dx, dy) # rest) =
     (let nx = x0 + dx; ny = y0 + dy
      in if nx < 0 \<or> nx \<ge> int DRAWING_CANVAS_SIZE \<or> ny < 0 \<or> ny \<ge> int DRAWING_CANVAS_SIZE
         then neighbourReward pixelData pixels sid x0 y0 rest
         else (case ownerData pixelData pixels (nat (ny * int DRAWING_CANVAS_SIZE + nx)) of
                 None \<Rightarrow> Inl TypeError
               | Some neighborData \<Rightarrow>
                   if pixelStrokeId neighborData = sid then Inr STROKE_REWARD
                   else neighbourReward pixelData pixels sid x0 y0 rest))"

definition strokeReward :: "nat \<Rightarrow> nat \<Rightarrow> PixelData list \<Rightarrow> DrawPixel list \<Rightarrow> js_error + int" where
  "strokeReward newPos oldPos pixelData pixels =
     (case ownerData pixelData pixels oldPos of
        None \<Rightarrow> Inl TypeError
      | Some d \<Rightarrow>
          neighbourReward pixelData pixels (pixelStrokeId d)
            (int (newPos mod DRAWING_CANVAS_SIZE)) (int (newPos div DRAWING_CANVAS_SIZE))
            [(0, - 1), (- 1, 0), (1, 0), (0, 1)])"

text \<open>Drawing the positions of a trial of the drawing solver.\<close>

definition drawPositions :: "PixelData list \<Rightarrow> nat \<Rightarrow> nat \<Rightarrow> nat \<Rightarrow> (nat \<times> int \<times> int) \<times> nat" where
  "drawPositions pixelData n S rng =
     (case range rng 0 (int n) of (apos, rng1) \<Rightarrow>
      let maxDistA = maxDist (ageAt pixelData (nat apos))
      in case range rng1 (- maxDistA) (maxDistA + 1) of (dx, rng2) \<Rightarrow>
         case range rng2 (- maxDistA) (maxDistA + 1) of (dy, rng3) \<Rightarrow>
           ((nat apos,
             min (int S - 1) (max 0 (apos mod int S + dx)),
             min (int S - 1) (max 0 (apos div int S + dy))), rng3))"

text \<open>
  The rest of a trial: the test on the distance, the two heuristics with their stroke
  rewards, and the swap. The state is the pixels, \<open>swapsMade\<close> and the generator.
\<close>

type_synonym draw_state = "DrawPixel list \<times> nat \<times> nat"

definition tooFar :: "PixelData list \<Rightarrow> nat \<Rightarrow> nat \<Rightarrow> int \<Rightarrow> int \<Rightarrow> bool" where
  "tooFar pixelData S apos bx by =
     (let maxDistB = maxDist (ageAt pixelData (nat (by * int S + bx)))
      in \<bar>bx - int (apos mod S)\<bar> > maxDistB \<or> \<bar>by - int (apos div S)\<bar> > maxDistB)"

definition drawSwap ::
  "int \<Rightarrow> rgb list \<Rightarrow> int list \<Rightarrow> SeedColor list \<Rightarrow> PixelData list \<Rightarrow> nat \<Rightarrow>
   DrawPixel list \<Rightarrow> nat \<Rightarrow> int \<Rightarrow> int \<Rightarrow> js_error + DrawPixel list \<times> bool" where
  "drawSwap prox targetPixels weights colors pixelData S pixels apos bx by =
     (let ax = int (apos mod S);
          ay = int (apos div S);
          bpos = nat (by * int S + bx)
      in case (nthOpt colors apos, nthOpt targetPixels bpos, strokeReward bpos apos pixelData pixels,
               nthOpt colors bpos, nthOpt targetPixels apos, strokeReward apos bpos pixelData pixels,
               nthOpt pixels apos, nthOpt pixels bpos) of
           (Some ca, Some tB, Inr rewardA, Some cb, Some tA, Inr rewardB, Some pa, Some pb) \<Rightarrow>
             (let aOnBH = num2 (+) (heuristic (bx, by) (ax, ay) (colorRgb ca) tB (numAt weights bpos) prox)
                            (Some rewardA);
                  bOnAH = num2 (+) (heuristic (ax, ay) (bx, by) (colorRgb cb) tA (numAt weights apos) prox)
                            (Some rewardB);
                  improvementA = num2 (-) (h pa) bOnAH;
                  improvementB = num2 (-) (h pb) aOnBH
              in if positive (num2 (+) improvementA improvementB)
                 then Inr (pixels[apos := pb\<lparr>h := aOnBH\<rparr>, bpos := pa\<lparr>h := bOnAH\<rparr>], True)
                 else Inr (pixels, False))
         | _ \<Rightarrow> Inl TypeError)"

definition drawTrial ::
  "int \<Rightarrow> rgb list \<Rightarrow> int list \<Rightarrow> SeedColor list \<Rightarrow> PixelData list \<Rightarrow> nat \<Rightarrow>
   draw_state \<Rightarrow> js_error + draw_state" where
  "drawTrial prox targetPixels weights colors pixelData S st =
     (case st of (pixels, swapsMade, rng) \<Rightarrow>
      case drawPositions pixelData (length pixels) S rng of ((apos, bx, by), rng') \<Rightarrow>
        if tooFar pixelData S apos bx by then Inr (pixels, swapsMade, rng')
        else (case drawSwap prox targetPixels weights colors pixelData S pixels apos bx by of
                Inl e \<Rightarrow> Inl e
              | Inr (pixels', swapped) \<Rightarrow>
                  Inr (pixels', if swapped then Suc swapsMade else swapsMade, rng')))"

text \<open>Pixel data in which no pixel was ever edited.\<close>

definition untouched :: "nat \<Rightarrow> PixelData list" where
  "untouched n = replicate n \<lparr>pixelStrokeId = 0, lastEdited = 0\<rparr>"

text \<open>
  A canvas of side 128 on which only the pixel at column 38 of row 124 was edited,
  3000 ticks ago, and pixels for it.
\<close>

definition onceEdited :: "PixelData list" where
  "onceEdited = (untouched 16384)[15910 := \<lparr>pixelStrokeId = 0, lastEdited = - 3000\<rparr>]"

definition blankPixels :: "DrawPixel list" where
  "blankPixels = replicate 16384 \<lparr>srcX = 0, srcY = 0, h = Some 0\<rparr>"

section \<open>The Voronoi rasterizer\<close>

























section \<open>Properties of the particle step\<close>

lemma clamp_abs: "0 \<le> m \<Longrightarrow> \<bar>clamp v (- m) m\<bar> \<le> m"
  by (auto simp: clamp_def max_def min_def)

text \<open>
  C10. Every call of \<open>CellBody.update(pos)\<close> moves each coordinate of the position by at
  most \<open>MAX_VELOCITY = 6.0\<close>, increments \<open>age\<close> by exactly 1, sets both components of
  the acceleration to 0 and leaves \<open>srcx\<close>, \<open>srcy\<close>, \<open>dstx\<close>, \<open>dsty\<close>,
  \<open>dstForce\<close> and \<open>strokeId\<close> as they were.
\<close>

theorem update_frame:
  "MAX_VELOCITY = 6 \<and>
   \<bar>fst (snd (update c pos)) - fst pos\<bar> \<le> MAX_VELOCITY \<and>
   \<bar>snd (snd (update c pos)) - snd pos\<bar> \<le> MAX_VELOCITY \<and>
   age (fst (update c pos)) = age c + 1 \<and>
   accx (fst (update c pos)) = 0 \<and>
   accy (fst (update c pos)) = 0 \<and>
   srcx (fst (update c pos)) = srcx c \<and>
   srcy (fst (update c pos)) = srcy c \<and>
   dstx (fst (update c pos)) = dstx c \<and>
   dsty (fst (update c pos)) = dsty c \<and>
   dstForce (fst (update c pos)) = dstForce c \<and>
   strokeId (fst (update c pos)) = strokeId c"
proof -
  have m: "(0::real) \<le> MAX_VELOCITY" "MAX_VELOCITY = 6"
    by (simp_all add: MAX_VELOCITY_def)
  show ?thesis
    using clamp_abs [OF m(1)] m(2) by (simp add: update_def Let_def)
qed

section \<open>Properties of \<open>preparePlay\<close>\<close>

lemma moveToDst_threw_iff: "snd (moveToDst cs ps) \<longleftrightarrow> length ps < length cs"
  by (induction cs ps rule: moveToDst.induct) (auto split: prod.splits)

lemma moveToDst_length: "length (fst (moveToDst cs ps)) = length ps"
  by (induction cs ps rule: moveToDst.induct) (auto split: prod.splits)

lemma resetToSrc_endpoints: "map endpoints (fst (resetToSrc cs ps)) = map endpoints cs"
  by (induction cs ps rule: resetToSrc.induct) (auto split: prod.splits simp: endpoints_def)

lemma switchCell_twice: "endpoints (switchCell (switchCell c)) = endpoints c"
  by (simp add: switchCell_def endpoints_def)

lemma switch_twice_endpoints: "map endpoints (cells (switch (switch s))) = map endpoints (cells s)"
  by (simp add: switch_def switchCell_twice comp_def)

text \<open>
  C9. From any simulation state, \<open>preparePlay(P, r)\<close> with \<open>r \<noteq> reversed\<close> followed by
  \<open>preparePlay(P, \<not> r)\<close> on the same positions array restores the
  \<open>(srcx, srcy, dstx, dsty)\<close> of every cell and the \<open>reversed\<close> flag. This also holds
  when the positions array is too short and the calls throw: then neither call
  reaches \<open>switch\<close>.
\<close>

theorem preparePlay_flip_twice:
  assumes "r \<noteq> reversed s"
  shows "(case preparePlay s P r of (e1, s1, P1) \<Rightarrow>
           case preparePlay s1 P1 (\<not> r) of (e2, s2, P2) \<Rightarrow>
             map endpoints (cells s2) = map endpoints (cells s) \<and> reversed s2 = reversed s)"
proof (cases "snd (moveToDst (cells s) P)")
  case True
  then obtain ps' where m: "moveToDst (cells s) P = (ps', True)"
    by (cases "moveToDst (cells s) P") auto
  have "map endpoints (fst (resetToSrc (cells s) ps')) = map endpoints (cells s)"
    by (rule resetToSrc_endpoints)
  then show ?thesis using assms m
    by (auto simp: preparePlay_def split: prod.splits)
next
  case False
  then obtain ps' where m: "moveToDst (cells s) P = (ps', False)"
    by (cases "moveToDst (cells s) P") auto
  have len: "length ps' = length P"
    using moveToDst_length [of "cells s" P] m by simp
  have "\<not> snd (moveToDst (cells (switch s)) ps')"
    using False len by (simp add: moveToDst_threw_iff switch_def)
  then obtain ps'' where m2: "moveToDst (cells (switch s)) ps' = (ps'', False)"
    by (cases "moveToDst (cells (switch s)) ps'") auto
  have r2: "reversed (switch s) = r" using assms by (auto simp: switch_def)
  show ?thesis using assms m m2 r2 switch_twice_endpoints [of s]
    by (auto simp: preparePlay_def switch_def split: prod.splits)
qed

theorem preparePlay_flip_twice_witness:
  "True \<noteq> reversed simAB \<and>
   (case preparePlay simAB [(0, 0), (0, 0)] True of (e1, s1, P1) \<Rightarrow>
      case preparePlay s1 P1 (\<not> True) of (e2, s2, P2) \<Rightarrow>
        e1 = None \<and> e2 = None \<and>
        map endpoints (cells s1) = [(1.5, 0.5, 0.5, 0.5), (0.5, 0.5, 1.5, 0.5)] \<and>
        map endpoints (cells s2) = map endpoints (cells simAB) \<and> reversed s2 = reversed simAB)"
proof -
  have h: "True \<noteq> reversed simAB" by (simp add: simAB_def)
  show ?thesis
    using h preparePlay_flip_twice [OF h, of "[(0, 0), (0, 0)]"]
    by (simp add: preparePlay_def simAB_def cellA_def cellB_def newCellBody_def switch_def
        switchCell_def endpoints_def split: prod.splits)
qed

section \<open>Stroke attraction in the simulation step\<close>

lemma applyNeighbourForce_strokeId:
  "strokeId (fst (applyNeighbourForce jit c pos other px)) = strokeId c"
  by (simp add: applyNeighbourForce_def Let_def)

lemma sqrt_quarter: "sqrt (1 / 4) = 1 / 2"
  by (simp add: real_sqrt_divide)

text \<open>
  C7 as stated fails: the step compares the two stroke ids for equality only, so two
  cells that both have \<open>strokeId = 0\<close> attract each other. Cell 0 at \<open>(0, 0)\<close> and
  cell 1 at \<open>(1/2, 0)\<close>, both with \<open>strokeId = 0\<close>, pixel size 1: the neighbour force
  alone leaves \<open>accx = - 9/19\<close> on cell 0, the loop body leaves \<open>- 9/95\<close>, the
  difference being the stroke attraction \<open>(1/2) \<cdot> (18/19) \<cdot> 0.8\<close>.
\<close>

theorem stroke_attraction_zero_counterexample:
  "strokeId (strokeless ! 0) = 0 \<and> strokeId (strokeless ! 1) = 0 \<and>
   accx (fst (applyNeighbourForce (\<lambda>p. (0, 0)) (strokeless ! 0) (nearby ! 0) (nearby ! 1) 1)) = - (9 / 19) \<and>
   accx (fst (interact (\<lambda>p. (0, 0)) nearby 1 0 1 (strokeless, 0, 0, 0)) ! 0) = - (9 / 95)"
  by (simp add: interact_def applyNeighbourForce_def applyStrokeAttraction_def strokeless_def
      nearby_def newCellBody_def PERSONAL_SPACE_def ALIGNMENT_FACTOR_def Let_def sqrt_quarter)

text \<open>
  C7 (amended). In the loop body of the simulation step for cell \<open>i\<close> and a neighbour
  \<open>other \<noteq> i\<close>, stroke attraction is applied to cell \<open>i\<close> exactly when the two cells
  have equal \<open>strokeId\<close> (0 included), on top of the neighbour force and with its
  weight; no other cell is changed.
\<close>

theorem stroke_attraction_same_id:
  assumes "i \<noteq> other" "i < length cs" "other < length cs"
  shows "fst (interact jit P px i other (cs, ax, ay, n)) =
         cs[i := (case applyNeighbourForce jit (cs ! i) (P ! i) (P ! other) px of (c1, w) \<Rightarrow>
                    if strokeId (cs ! i) = strokeId (cs ! other)
                    then applyStrokeAttraction c1 (P ! i) (P ! other) w else c1)]"
  using assms applyNeighbourForce_strokeId [of jit "cs ! i" "P ! i" "P ! other" px]
  by (auto simp: interact_def Let_def split: prod.splits)

theorem stroke_attraction_same_id_witness:
  "(0::nat) \<noteq> 1 \<and> 0 < length strokeless \<and> 1 < length strokeless \<and>
   fst (interact (\<lambda>p. (0, 0)) nearby 1 0 1 (strokeless, 0, 0, 0)) =
   strokeless[0 := applyStrokeAttraction
      (fst (applyNeighbourForce (\<lambda>p. (0, 0)) (strokeless ! 0) (nearby ! 0) (nearby ! 1) 1))
      (nearby ! 0) (nearby ! 1) (18 / 19)]"
proof -
  have h: "(0::nat) \<noteq> 1" "0 < length strokeless" "1 < length strokeless"
    by (simp_all add: strokeless_def)
  show ?thesis
    using h stroke_attraction_same_id [OF h, of "\<lambda>p. (0, 0)" nearby 1 0 0 0]
    by (simp add: applyNeighbourForce_def strokeless_def
      nearby_def newCellBody_def PERSONAL_SPACE_def Let_def sqrt_quarter)
qed

section \<open>The size of the buffer returned by \<open>applyCropScale\<close>\<close>

lemma length_intoArray: "length (intoArray n xs) = n"
  by (simp add: intoArray_def)

lemma applyCropScale_resized_length:
  assumes "applyCropScale env img sw sh S cs = Inr out" "cropSideOf sw sh cs \<noteq> S"
  shows "length out = S * S * 3"
  using assms
  by (auto simp: applyCropScale_def Let_def length_intoArray split: option.splits if_splits)

text \<open>
  C6 fails on the code. When the crop side equals the target side, the function returns
  its argument \<open>sourceImg\<close> (under the comment "Already correct size"), not the cropped
  square: for a source of 2 by 1 pixels, scale 1 and target side 1, the crop side is 1, and
  whatever the canvas does the call either throws or returns the six bytes it was given,
  not three.
\<close>

theorem applyCropScale_returns_source:
  "cropSideOf 2 1 noCrop = 1 \<and>
   length wideImg = 6 \<and>
   (case canvasCrop env wideImg 2 1 0 0 1 of
      None \<Rightarrow> applyCropScale env wideImg 2 1 1 noCrop = Inl DOMException
    | Some cropped \<Rightarrow> applyCropScale env wideImg 2 1 1 noCrop = Inr wideImg)"
proof -
  have c: "cropSideOf 2 1 noCrop = 1"
    by (simp add: cropSideOf_def noCrop_def Let_def)
  show ?thesis
    using c by (simp add: applyCropScale_def noCrop_def clamp_def wideImg_def Let_def
        split: option.splits)
qed

text \<open>The crop side is at least 1, so a solver that has a pixel has a positive side.\<close>

lemma cropSideOf_pos: "0 < cropSideOf sw sh cs"
proof -
  have "(1::real) \<le> max 1 (min (real (min sw sh) / max 1 (cs_scale cs)) (min (real sw) (real sh)))"
    by simp
  then have "1 \<le> \<lfloor>max 1 (min (real (min sw sh) / max 1 (cs_scale cs)) (min (real sw) (real sh)))\<rfloor>"
    by (simp add: le_floor_iff)
  then show ?thesis by (simp add: cropSideOf_def Let_def)
qed

lemma applyCropScale_side_pos:
  assumes "applyCropScale env img sw sh S cs = Inr out" "out \<noteq> []"
  shows "0 < S"
proof (cases "cropSideOf sw sh cs = S")
  case True
  then show ?thesis using cropSideOf_pos [of sw sh cs] by simp
next
  case False
  then have "length out = S * S * 3" by (rule applyCropScale_resized_length [OF assms(1)])
  then show ?thesis using assms(2) by (cases S) auto
qed

section \<open>The generator stays in range\<close>

text \<open>
  Rounding to 53 bits moves a number by at most half a unit in the last place, so the
  product \<open>next() * (max - min)\<close> stays below \<open>max - min\<close> and \<open>range\<close> returns a
  number of the half-open interval, whatever the state of the generator.
\<close>

lemma bitLength_lower: "0 < n \<Longrightarrow> 2 ^ (bitLength n - 1) \<le> n"
proof (induction n rule: bitLength.induct)
  case (1 n)
  show ?case
  proof (cases "n div 2 = 0")
    case True
    then have "n = 1" using "1.prems" by (auto simp: div_eq_0_iff)
    then show ?thesis by (simp add: bitLength.simps [of "Suc 0"] bitLength.simps [of 0])
  next
    case False
    then have pos: "0 < n div 2" by simp
    have ih: "2 ^ (bitLength (n div 2) - 1) \<le> n div 2"
      using "1.IH" "1.prems" pos by simp
    have bl: "bitLength (n div 2) \<noteq> 0"
      using pos by (simp add: bitLength.simps [of "n div 2"])
    have "bitLength n = Suc (bitLength (n div 2))"
      using "1.prems" by (simp add: bitLength.simps [of n])
    then have "(2::nat) ^ (bitLength n - 1) = 2 * 2 ^ (bitLength (n div 2) - 1)"
      using bl by (cases "bitLength (n div 2)") simp_all
    also have "\<dots> \<le> 2 * (n div 2)" using ih by simp
    also have "\<dots> \<le> n" by simp
    finally show ?thesis .
  qed
qed

lemma bitLength_ge: "2 ^ k \<le> n \<Longrightarrow> k < bitLength n"
proof (induction k arbitrary: n)
  case 0
  then show ?case by (simp add: bitLength.simps [of n])
next
  case (Suc k)
  then have "2 ^ k \<le> n div 2" by simp
  then have "k < bitLength (n div 2)" by (rule Suc.IH)
  moreover have "0 < (2::nat) ^ Suc k" by simp
  then have "n \<noteq> 0" using Suc.prems by linarith
  ultimately show ?case by (simp add: bitLength.simps [of n])
qed

lemma fl53_error: "2 ^ 53 * fl53 n \<le> (2 ^ 53 + 1) * n"
proof (cases "n < 2 ^ 53")
  case True
  then show ?thesis by (simp add: fl53_def)
next
  case False
  define e where "e = bitLength n - 53"
  define q where "q = n div 2 ^ e"
  define r where "r = n mod 2 ^ e"
  have big: "(2::nat) ^ 53 \<le> n" using False by simp
  then have bl: "53 < bitLength n" by (rule bitLength_ge)
  then have e1: "1 \<le> e" by (simp add: e_def)
  have npos: "0 < n" using big by (simp add: less_le_trans [of 0 "2 ^ 53"])
  have n_eq: "n = q * 2 ^ e + r"
    using div_mult_mod_eq [of n "2 ^ e"] by (simp add: q_def r_def)
  have twice: "(2::nat) ^ e = 2 * 2 ^ (e - 1)"
    using e1 by (cases e) simp_all
  have "bitLength n - 1 = 53 + (e - 1)" using bl e1 by (simp add: e_def)
  then have "(2::nat) ^ 53 * 2 ^ (e - 1) = 2 ^ (bitLength n - 1)"
    by (simp add: power_add)
  then have half: "(2::nat) ^ 53 * 2 ^ (e - 1) \<le> n"
    using bitLength_lower [OF npos] by simp
  have "fl53 n \<le> n + 2 ^ (e - 1)"
  proof (cases "r < 2 ^ (e - 1) \<or> (r = 2 ^ (e - 1) \<and> even q)")
    case True
    then have "fl53 n = q * 2 ^ e"
      using False by (simp add: fl53_def Let_def e_def q_def r_def)
    then show ?thesis using n_eq by simp
  next
    case False
    then have rr: "2 ^ (e - 1) \<le> r" by auto
    have "fl53 n = (q + 1) * 2 ^ e"
      using False \<open>\<not> n < 2 ^ 53\<close> by (simp add: fl53_def Let_def e_def q_def r_def)
    also have "\<dots> = q * 2 ^ e + 2 ^ (e - 1) + 2 ^ (e - 1)" using twice by simp
    also have "\<dots> \<le> n + 2 ^ (e - 1)" using n_eq rr by simp
    finally show ?thesis .
  qed
  then have "2 ^ 53 * fl53 n \<le> 2 ^ 53 * (n + 2 ^ (e - 1))" by simp
  also have "\<dots> = 2 ^ 53 * n + 2 ^ 53 * 2 ^ (e - 1)" by (simp add: algebra_simps)
  also have "\<dots> \<le> 2 ^ 53 * n + n" using half by simp
  finally show ?thesis by (simp add: algebra_simps)
qed

lemma rngNext_less: "fst (rngNext s) < 2 ^ 32"
proof -
  have "unat (w :: 32 word) < 2 ^ 32" for w
    using unsigned_less [of w, where ?'a = nat] by simp
  then show ?thesis by (simp add: rngNext_def Let_def)
qed

lemma scaled_less:
  assumes "u < 2 ^ 32" "0 < m"
  shows "fl53 (u * m) div 2 ^ 32 < m"
proof -
  have "2 ^ 53 * fl53 (u * m) \<le> (2 ^ 53 + 1) * (u * m)" by (rule fl53_error)
  also have "\<dots> \<le> (2 ^ 53 + 1) * ((2 ^ 32 - 1) * m)"
    using assms(1) by (intro mult_le_mono2 mult_le_mono1) simp
  also have "\<dots> < 2 ^ 53 * (2 ^ 32 * m)"
    using assms(2) by simp
  finally have "fl53 (u * m) < 2 ^ 32 * m" by simp
  then show ?thesis by (simp add: less_mult_imp_div_less mult.commute)
qed

lemma range_bounds:
  assumes "lo < hi"
  shows "lo \<le> fst (range s lo hi) \<and> fst (range s lo hi) < hi"
proof -
  obtain u s' where r: "rngNext s = (u, s')" by (cases "rngNext s")
  have u: "u < 2 ^ 32" using rngNext_less [of s] r by simp
  have m: "0 < nat (hi - lo)" using assms by simp
  have d: "fl53 (u * nat (hi - lo)) div 2 ^ 32 < nat (hi - lo)"
    by (rule scaled_less [OF u m])
  have eq: "fst (range s lo hi) = int (fl53 (u * nat (hi - lo)) div 2 ^ 32) + lo"
    using assms r by (simp add: range_def zdiv_int)
  show ?thesis using d assms unfolding eq by linarith
qed

section \<open>Lists of optional values\<close>

lemma those_nth:
  assumes "those xs = Some ys" "k < length xs"
  shows "xs ! k = Some (ys ! k)"
  using assms
proof (induction xs arbitrary: ys k)
  case Nil
  then show ?case by simp
next
  case (Cons a xs)
  then show ?case
    by (cases k) (auto split: option.splits)
qed

section \<open>The stored values of the Genetic solver\<close>

text \<open>
  What does hold at every accepted swap: the sum of the values \<open>h\<close> stored in the
  pixels decreases, by the improvement the test computed. It is the heuristic of the
  owners at their positions that need not decrease, because the stored values stop
  being that heuristic after the first swap (see C1 and C2 below).
\<close>

lemma heuristic_sym: "heuristic p q a b w s = heuristic q p a b w s"
  by (simp add: heuristic_def Let_def power2_commute [of "fst p" "fst q"] power2_commute [of "snd p" "snd q"])

lemma those_update:
  assumes "those xs = Some ys" "k < length xs"
  shows "those (xs[k := Some v]) = Some (ys[k := v])"
  using assms
proof (induction xs arbitrary: ys k)
  case Nil
  then show ?case by simp
next
  case (Cons a xs)
  then show ?case by (cases k) (auto split: option.splits)
qed

lemma those_length: "those xs = Some ys \<Longrightarrow> length ys = length xs"
  by (induction xs arbitrary: ys) (auto split: option.splits)

lemma sum_list_update_int:
  fixes ys :: "int list"
  shows "k < length ys \<Longrightarrow> sum_list (ys[k := v]) = sum_list ys - ys ! k + v"
proof (induction ys arbitrary: k)
  case Nil
  then show ?case by simp
next
  case (Cons a ys)
  then show ?case by (cases k) simp_all
qed

lemma swapTrial_stored_total:
  assumes acc: "swapTrial prox targetPixels weights S pixels apos bx by = Inr (pixels', True)"
    and tot: "storedTotal pixels = Some tot0"
  shows "\<exists>tot0'. storedTotal pixels' = Some tot0' \<and> tot0' < tot0"
proof -
  let ?bpos = "nat (by * int S + bx)"
  let ?ax = "int (apos mod S)" and ?ay = "int (apos div S)"
  obtain tA tB pa pb where r: "nthOpt targetPixels apos = Some tA" "nthOpt targetPixels ?bpos = Some tB"
    "nthOpt pixels apos = Some pa" "nthOpt pixels ?bpos = Some pb"
    using acc by (auto simp: swapTrial_def Let_def split: option.splits)
  define aOnBH where "aOnBH = heuristic (bx, by) (?ax, ?ay) (rgb pa) tB (numAt weights ?bpos) prox"
  define bOnAH where "bOnAH = heuristic (?ax, ?ay) (bx, by) (rgb pb) tA (numAt weights apos) prox"
  have pos: "positive (num2 (+) (num2 (-) (h pa) bOnAH) (num2 (-) (h pb) aOnBH))"
    and px: "pixels' = pixels[apos := pb\<lparr>h := aOnBH\<rparr>, ?bpos := pa\<lparr>h := bOnAH\<rparr>]"
    using acc r by (auto simp: swapTrial_def Let_def aOnBH_def bOnAH_def split: if_splits)
  obtain ha hb va vb where v: "h pa = Some ha" "h pb = Some hb" "aOnBH = Some va" "bOnAH = Some vb"
    and gain: "0 < (ha - vb) + (hb - va)"
    using pos by (auto simp: positive_def num2_def split: option.splits)
  have a: "apos < length pixels" "pixels ! apos = pa" and b: "?bpos < length pixels" "pixels ! ?bpos = pb"
    using r(3,4) by (auto simp: nthOpt_def split: if_splits)
  obtain hs where hs: "those (map h pixels) = Some hs" "sum_list hs = tot0"
    using tot by (auto simp: storedTotal_def)
  have len: "length hs = length pixels" using those_length [OF hs(1)] by simp
  have ha: "hs ! apos = ha" and hb: "hs ! ?bpos = hb"
    using those_nth [OF hs(1), of apos] those_nth [OF hs(1), of ?bpos] a b v(1,2) by simp_all
  have m: "map h pixels' = (map h pixels)[apos := Some va, ?bpos := Some vb]"
    by (simp add: px map_update v(3,4))
  have t': "those (map h pixels') = Some (hs[apos := va, ?bpos := vb])"
    unfolding m using those_update [OF those_update [OF hs(1), of apos va], of ?bpos vb] a(1) b(1)
    by simp
  have "sum_list (hs[apos := va, ?bpos := vb]) < sum_list hs"
  proof (cases "apos = ?bpos")
    case True
    have "pa = pb" using a(2) b(2) True by simp
    moreover have "tA = tB" using r(1,2) True by simp
    ultimately have "aOnBH = bOnAH"
      using True heuristic_sym [of "(bx, by)" "(?ax, ?ay)"] by (simp add: aOnBH_def bOnAH_def)
    then have "va = vb" using v(3,4) by simp
    then have "vb < ha" using gain v(1,2) \<open>pa = pb\<close> by simp
    then show ?thesis
      using True a(1) len ha by (simp add: sum_list_update_int)
  next
    case False
    then have "hs[apos := va] ! ?bpos = hb" using hb by simp
    then show ?thesis
      using a(1) b(1) len ha gain by (simp add: sum_list_update_int)
  qed
  then show ?thesis using t' hs(2) by (simp add: storedTotal_def)
qed

section \<open>The first two trials of a run of the Genetic solver\<close>

text \<open>
  The run: a source of 2 by 2 pixels with red channels 10, 30, 0, 20, a custom target
  with red channels 10, 0, 10, 10, \<open>sidelen = 2\<close>, \<open>proximityImportance = 1\<close> and
  \<open>id = "l"\<close>, whose hash 108 seeds the generator.
\<close>

lemma crop22: "cropSideOf 2 2 noCrop = 2"
  by (simp add: cropSideOf_def noCrop_def Let_def)

lemma prepare_demo:
  "prepare quietCanvas demoSource demoSettings =
     Some (sourceImg demoSource, demoTargetPixels, [255, 255, 255, 255], demoPixels)"
  by (simp add: prepare_def demoSource_def demoSettings_def demoTarget_def applyCropScale_def crop22 Let_def
     quietCanvas_def targetOf_def nthOpt_def numAt_def heuristic_def num2_def sqDiff_def demoPixels_def demoTargetPixels_def)

lemma seed_demo: "hashCode (settingsId demoSettings) = 108"
  by (simp add: demoSettings_def hashCode_def hashStep_def)

lemma rng_a: "range 108 0 4 = (1, 1831565921)"
  by (simp add: range_def rngNext_def fl53_def Let_def)

lemma rng_b: "range 1831565921 (-2) 3 = (-1, 3663131734)"
  by (simp add: range_def rngNext_def fl53_def Let_def)

lemma rng_c: "range 3663131734 (-2) 3 = (1, 5494697547)"
  by (simp add: range_def rngNext_def fl53_def Let_def)

lemma rng_d: "range 5494697547 0 4 = (3, 7326263360)"
  by (simp add: range_def rngNext_def fl53_def Let_def)

lemma rng_e: "range 7326263360 (-2) 3 = (0, 9157829173)"
  by (simp add: range_def rngNext_def fl53_def Let_def)

lemma rng_f: "range 9157829173 (-2) 3 = (-1, 10989394986)"
  by (simp add: range_def rngNext_def fl53_def Let_def)

lemma sample_demo1: "samplePositions 4 2 2 108 = ((1, 0, 1), 5494697547)"
  by (simp add: samplePositions_def rng_a rng_b rng_c clampI_def)

lemma sample_demo2: "samplePositions 4 2 2 5494697547 = ((3, 1, 0), 10989394986)"
  by (simp add: samplePositions_def rng_d rng_e rng_f clampI_def)

lemma swap_demo1:
  "swapTrial 1 demoTargetPixels [255, 255, 255, 255] 2 demoPixels 1 0 1 = Inr (demoPixels1, True)"
  by (simp add: swapTrial_def demoTargetPixels_def demoPixels_def demoPixels1_def nthOpt_def numAt_def
      heuristic_def num2_def sqDiff_def positive_def Let_def)

lemma swap_demo2:
  "swapTrial 1 demoTargetPixels [255, 255, 255, 255] 2 demoPixels1 3 1 0 = Inr (demoPixels2, True)"
  by (simp add: swapTrial_def demoTargetPixels_def demoPixels2_def demoPixels1_def nthOpt_def numAt_def
      heuristic_def num2_def sqDiff_def positive_def Let_def)

lemma trial_demo1:
  "trial 1 demoTargetPixels [255, 255, 255, 255] 2 2 (demoPixels, 0, 108) = Inr (demoPixels1, 1, 5494697547)"
proof -
  have "length demoPixels = 4" by (simp add: demoPixels_def)
  then show ?thesis using sample_demo1 swap_demo1 by (simp add: trial_def)
qed

lemma trial_demo2:
  "trial 1 demoTargetPixels [255, 255, 255, 255] 2 2 (demoPixels1, 1, 5494697547) = Inr (demoPixels2, 2, 10989394986)"
proof -
  have "length demoPixels1 = 4" by (simp add: demoPixels1_def)
  then show ?thesis using sample_demo2 swap_demo2 by (simp add: trial_def)
qed

lemma upt4: "[0..<4] = [0, 1, 2, 3]"
  by (simp add: upt_rec)

lemma total_demo1: "totalH 1 demoTargetPixels [255, 255, 255, 255] 2 demoPixels1 = Some 127508"
  by (simp add: totalH_def placedH_def demoPixels1_def demoTargetPixels_def upt4 numAt_def
      nthOpt_def heuristic_def num2_def sqDiff_def Let_def)

lemma total_demo2: "totalH 1 demoTargetPixels [255, 255, 255, 255] 2 demoPixels2 = Some 229506"
  by (simp add: totalH_def placedH_def demoPixels2_def demoTargetPixels_def upt4 numAt_def
      nthOpt_def heuristic_def num2_def sqDiff_def Let_def)

lemma settings_demo: "proximityImportance demoSettings = 1" "sidelen demoSettings = 2"
  by (simp_all add: demoSettings_def)

text \<open>
  C1 fails on the code. The acceptance test is the one the claim states, but the summed
  heuristic of the owners at their positions can grow at an accepted swap. In the run
  above the first trial swaps positions 1 and 2 and is accepted, after which the sum is
  127508; the second trial swaps positions 3 and 1, is accepted as well (\<open>swapsMade\<close> is
  2), and the sum is 229506. The test of the second trial used the value 102004 stored
  at position 1 by the first swap, which is the heuristic of the pixel that left
  position 1, not of the one that arrived.
\<close>

theorem genetic_sum_increases:
  "(case prepare quietCanvas demoSource demoSettings of
      None \<Rightarrow> False
    | Some (img, targetPixels, weights, pixels) \<Rightarrow>
        (case trial (proximityImportance demoSettings) targetPixels weights (sidelen demoSettings)
                (int (sidelen demoSettings)) (pixels, 0, hashCode (settingsId demoSettings)) of
           Inl e \<Rightarrow> False
         | Inr st1 \<Rightarrow>
             (case trial (proximityImportance demoSettings) targetPixels weights
                     (sidelen demoSettings) (int (sidelen demoSettings)) st1 of
                Inl e \<Rightarrow> False
              | Inr st2 \<Rightarrow>
                  fst (snd st1) = 1 \<and> fst (snd st2) = 2 \<and>
                  totalH (proximityImportance demoSettings) targetPixels weights
                    (sidelen demoSettings) (fst st1) = Some 127508 \<and>
                  totalH (proximityImportance demoSettings) targetPixels weights
                    (sidelen demoSettings) (fst st2) = Some 229506)))"
  using trial_demo1 trial_demo2 total_demo1 total_demo2
  by (simp add: prepare_demo seed_demo settings_demo)

text \<open>
  C2 fails on the code. After an accepted swap the two stored values are crossed:
  \<open>pixels[apos]\<close> then holds the pixel that came from \<open>bpos\<close> and gets \<open>aOnBH\<close>, the
  heuristic of the other pixel at the other position. In the run above, after the first
  trial (positions 1 and 2, accepted) the value stored at position 1 is 102004, while the
  heuristic of the owner now at position 1, placed at position 1, is 4.
\<close>

theorem genetic_stored_h_crossed:
  "(case prepare quietCanvas demoSource demoSettings of
      None \<Rightarrow> False
    | Some (img, targetPixels, weights, pixels) \<Rightarrow>
        (case trial (proximityImportance demoSettings) targetPixels weights (sidelen demoSettings)
                (int (sidelen demoSettings)) (pixels, 0, hashCode (settingsId demoSettings)) of
           Inl e \<Rightarrow> False
         | Inr st1 \<Rightarrow>
             fst (snd st1) = 1 \<and>
             h (fst st1 ! 1) = Some 102004 \<and>
             placedH (proximityImportance demoSettings) targetPixels weights
               (sidelen demoSettings) (fst st1 ! 1) 1 = Some 4))"
proof -
  have "h (demoPixels1 ! 1) = Some 102004"
    by (simp add: demoPixels1_def)
  moreover have "placedH 1 demoTargetPixels [255, 255, 255, 255] 2 (demoPixels1 ! 1) 1 = Some 4"
    by (simp add: placedH_def demoPixels1_def demoTargetPixels_def numAt_def nthOpt_def
        heuristic_def num2_def sqDiff_def Let_def)
  ultimately show ?thesis
    using trial_demo1 by (simp add: prepare_demo seed_demo settings_demo)
qed

section \<open>Runs of the Genetic solver\<close>

text \<open>A solver that holds a pixel has a positive side.\<close>

lemma initPixels_length:
  "initPixels S prox targetPixels weights i ps = Some pixels \<Longrightarrow> length pixels = length ps"
  by (induction ps arbitrary: i pixels) (auto split: option.splits)

lemma prepare_sidelen_pos:
  assumes "prepare env source settings = Some (img, targetPixels, weights, pixels)" "pixels \<noteq> []"
  shows "0 < sidelen settings"
proof -
  obtain img0 where c: "applyCropScale env (sourceImg source) (width source) (height source)
      (sidelen settings) (sourceCropScale settings) = Inr img0"
    using assms(1) by (auto simp: prepare_def split: sum.splits)
  obtain t0 where t: "targetOf env settings (extractRGB img0) = Inr t0"
    using assms(1) c by (auto simp: prepare_def split: sum.splits)
  have "initPixels (sidelen settings) (proximityImportance settings) t0
          (replicate (length t0) 255) 0 (extractRGB img0) = Some pixels"
    using assms(1) c t by (auto simp: prepare_def Let_def split: option.splits)
  then have "length pixels = length (extractRGB img0)" by (rule initPixels_length)
  then have "extractRGB img0 \<noteq> []" using assms(2) by auto
  then have "img0 \<noteq> []" by auto
  then show ?thesis by (rule applyCropScale_side_pos [OF c])
qed

text \<open>
  A run whose pixels all have stored value 0 accepts no swap: every heuristic is at
  least 0, so no improvement is positive. With \<open>radius < 4\<close> such a run ends after
  its first generation.
\<close>

lemma heuristic_nonneg:
  assumes "definedRgb a" "definedRgb b" "0 \<le> w"
  shows "\<exists>v. heuristic p q a b (Some w) sw = Some v \<and> 0 \<le> v"
proof -
  obtain a0 a1 a2 where a: "a = (Some a0, Some a1, Some a2)"
    using assms(1) by (cases a) (auto simp: definedRgb_def)
  obtain b0 b1 b2 where b: "b = (Some b0, Some b1, Some b2)"
    using assms(2) by (cases b) (auto simp: definedRgb_def)
  have "0 \<le> ((a0 - b0)\<^sup>2 + (a1 - b1)\<^sup>2 + (a2 - b2)\<^sup>2) * w"
    using assms(3) by simp
  then show ?thesis
    by (simp add: a b heuristic_def num2_def sqDiff_def Let_def)
qed

lemma swapTrial_at_rest:
  assumes h0: "\<forall>p \<in> set pixels. h p = Some 0 \<and> definedRgb (rgb p)"
    and tg: "\<forall>t \<in> set targetPixels. definedRgb t"
    and wt: "\<forall>w \<in> set weights. 0 \<le> w" "length weights = length targetPixels"
    and len: "length pixels \<le> length targetPixels"
    and a: "apos < length pixels"
    and b: "nat (by * int S + bx) < length pixels"
  shows "swapTrial prox targetPixels weights S pixels apos bx by = Inr (pixels, False)"
proof -
  let ?bpos = "nat (by * int S + bx)"
  let ?ax = "int (apos mod S)" and ?ay = "int (apos div S)"
  have ta: "nthOpt targetPixels apos = Some (targetPixels ! apos)"
    and tb: "nthOpt targetPixels ?bpos = Some (targetPixels ! ?bpos)"
    and pa: "nthOpt pixels apos = Some (pixels ! apos)"
    and pb: "nthOpt pixels ?bpos = Some (pixels ! ?bpos)"
    using a b len by (simp_all add: nthOpt_def)
  have wa: "numAt weights apos = Some (weights ! apos)" "0 \<le> weights ! apos"
    and wb: "numAt weights ?bpos = Some (weights ! ?bpos)" "0 \<le> weights ! ?bpos"
    using a b len wt by (simp_all add: numAt_def)
  have da: "definedRgb (rgb (pixels ! apos))" "h (pixels ! apos) = Some 0"
    and db: "definedRgb (rgb (pixels ! ?bpos))" "h (pixels ! ?bpos) = Some 0"
    using h0 a b by simp_all
  have dta: "definedRgb (targetPixels ! apos)" and dtb: "definedRgb (targetPixels ! ?bpos)"
    using tg a b len by simp_all
  obtain v1 where v1: "heuristic (bx, by) (?ax, ?ay) (rgb (pixels ! apos)) (targetPixels ! ?bpos)
      (Some (weights ! ?bpos)) prox = Some v1" "0 \<le> v1"
    using heuristic_nonneg [OF da(1) dtb wb(2)] by blast
  obtain v2 where v2: "heuristic (?ax, ?ay) (bx, by) (rgb (pixels ! ?bpos)) (targetPixels ! apos)
      (Some (weights ! apos)) prox = Some v2" "0 \<le> v2"
    using heuristic_nonneg [OF db(1) dta wa(2)] by blast
  show ?thesis
    using v1 v2 by (simp add: swapTrial_def ta tb pa pb wa(1) wb(1) da(2) db(2) Let_def
        num2_def positive_def)
qed

lemma clampI_bounds: "lo \<le> hi \<Longrightarrow> lo \<le> clampI v lo hi \<and> clampI v lo hi \<le> hi"
  by (auto simp: clampI_def)

lemma samplePositions_bounds:
  assumes "0 < n" "0 < S" "0 \<le> radius"
    and "samplePositions n S radius rng = ((apos, bx, by), rng')"
  shows "apos < n \<and> 0 \<le> bx \<and> bx < int S \<and> 0 \<le> by \<and> by < int S"
proof -
  obtain a r1 where r1: "range rng 0 (int n) = (a, r1)" by (cases "range rng 0 (int n)")
  obtain dx r2 where r2: "range r1 (- radius) (radius + 1) = (dx, r2)"
    by (cases "range r1 (- radius) (radius + 1)")
  obtain dy r3 where r3: "range r2 (- radius) (radius + 1) = (dy, r3)"
    by (cases "range r2 (- radius) (radius + 1)")
  have ab: "0 \<le> a \<and> a < int n"
    using range_bounds [of 0 "int n" rng] assms(1) r1 by simp
  have c: "(0::int) \<le> int S - 1" using assms(2) by simp
  have eq: "apos = nat a" "bx = clampI (a mod int S + dx) 0 (int S - 1)"
    "by = clampI (a div int S + dy) 0 (int S - 1)"
    using assms(4) by (simp_all add: samplePositions_def r1 r2 r3)
  show ?thesis
    using ab clampI_bounds [OF c, of "a mod int S + dx"] clampI_bounds [OF c, of "a div int S + dy"]
    unfolding eq by auto
qed

lemma bpos_less:
  assumes "0 \<le> bx" "bx < int S" "0 \<le> by" "by < int S"
  shows "nat (by * int S + bx) < S * S"
proof -
  have "by * int S + bx \<le> (int S - 1) * int S + bx"
    using assms by (simp add: mult_right_mono)
  also have "\<dots> < int S * int S" using assms by (simp add: algebra_simps)
  finally have "by * int S + bx < int (S * S)" by simp
  moreover have "0 \<le> by * int S + bx" using assms by simp
  ultimately show ?thesis by (simp add: nat_less_iff)
qed

lemma trial_at_rest:
  assumes h0: "\<forall>p \<in> set pixels. h p = Some 0 \<and> definedRgb (rgb p)"
    and tg: "\<forall>t \<in> set targetPixels. definedRgb t"
    and wt: "\<forall>w \<in> set weights. 0 \<le> w" "length weights = length targetPixels"
    and len: "length pixels \<le> length targetPixels" "S * S \<le> length pixels" "0 < S"
    and md: "0 \<le> radius"
  shows "\<exists>rng'. trial prox targetPixels weights S radius (pixels, k, rng) = Inr (pixels, k, rng')"
proof -
  obtain apos bx "by" rng' where s: "samplePositions (length pixels) S radius rng = ((apos, bx, by), rng')"
    by (metis prod_cases3 surj_pair)
  have n: "0 < length pixels" using len(2,3) by (cases S) auto
  have bnd: "apos < length pixels \<and> 0 \<le> bx \<and> bx < int S \<and> 0 \<le> by \<and> by < int S"
    by (rule samplePositions_bounds [OF n len(3) md s])
  then have b: "nat (by * int S + bx) < length pixels"
    using bpos_less [of bx S "by"] len(2) by simp
  have "swapTrial prox targetPixels weights S pixels apos bx by = Inr (pixels, False)"
    using swapTrial_at_rest [OF h0 tg wt len(1) _ b] bnd by simp
  then show ?thesis by (simp add: trial_def s)
qed

lemma runTrials_at_rest:
  assumes h0: "\<forall>p \<in> set pixels. h p = Some 0 \<and> definedRgb (rgb p)"
    and tg: "\<forall>t \<in> set targetPixels. definedRgb t"
    and wt: "\<forall>w \<in> set weights. 0 \<le> w" "length weights = length targetPixels"
    and len: "length pixels \<le> length targetPixels" "S * S \<le> length pixels" "0 < S"
    and md: "0 \<le> radius"
  shows "\<exists>rng'. runTrials n prox targetPixels weights S radius (pixels, k, rng) = Inr (pixels, k, rng')"
proof (induction n arbitrary: rng)
  case 0
  then show ?case by simp
next
  case (Suc n)
  obtain r1 where "trial prox targetPixels weights S radius (pixels, k, rng) = Inr (pixels, k, r1)"
    using trial_at_rest [OF h0 tg wt len md] by blast
  then show ?case using Suc.IH [of r1] by simp
qed

lemma generations_at_rest:
  assumes h0: "\<forall>p \<in> set pixels. h p = Some 0 \<and> definedRgb (rgb p)"
    and tg: "\<forall>t \<in> set targetPixels. definedRgb t"
    and wt: "\<forall>w \<in> set weights. 0 \<le> w" "length weights = length targetPixels"
    and len: "length pixels \<le> length targetPixels" "S * S \<le> length pixels" "0 < S"
    and md: "0 \<le> radius" "radius < 4"
    and nc: "\<not> cancel posted" "\<not> cancel (posted + 1)"
  shows "generations (Suc fuel) cancel posted prox targetPixels weights S img radius pixels rng =
         Some (Done (assignmentsOf S pixels) img)"
proof -
  obtain r1 where "runTrials (128 * length pixels) prox targetPixels weights S radius (pixels, 0, rng)
      = Inr (pixels, 0, r1)"
    using runTrials_at_rest [OF h0 tg wt len md(1)] by blast
  then show ?thesis using md(2) nc by simp
qed





lemma crop21: "cropSideOf 2 1 noCrop = 1"
  by (simp add: cropSideOf_def noCrop_def Let_def)


lemma prepare_wide:
  "prepare quietCanvas wideSource wideSettings =
     Some (wideImg, [(Some 10, Some 20, Some 30), (Some 40, Some 50, Some 60)], [255, 255],
           [\<lparr>srcX = 0, srcY = 0, h = Some 0, rgb = (Some 10, Some 20, Some 30)\<rparr>,
            \<lparr>srcX = 0, srcY = 1, h = Some 0, rgb = (Some 40, Some 50, Some 60)\<rparr>])"
  using crop21
  by (simp add: prepare_def wideSource_def wideSettings_def applyCropScale_def Let_def wideImg_def
     quietCanvas_def targetOf_def nthOpt_def numAt_def heuristic_def num2_def sqDiff_def)


lemma wide_fields: "proximityImportance wideSettings = 13" "sidelen wideSettings = 1"
  "settingsId wideSettings = ''wide''"
  by (simp_all add: wideSettings_def)


text \<open>
  C3 fails on the code for the Genetic solver. For a source of 2 by 1 pixels and
  \<open>sidelen = 1\<close> the crop side equals the target side, \<open>applyCropScale\<close> returns the
  whole source, and the solver works on two pixels: its \<open>done\<close> message carries the
  assignments \<open>[0, 1]\<close>, of length 2 where \<open>N = 1\<close>, with the index 1 outside
  \<open>[0, N)\<close>.
\<close>

theorem genetic_done_wrong_length:
  "processGenetic quietCanvas (\<lambda>k. False) 1 wideSource wideSettings = Some (Done [0, 1] wideImg) \<and>
   sidelen wideSettings * sidelen wideSettings = 1"
proof -
  have "generations (Suc 0) (\<lambda>k. False) 0 13 [(Some 10, Some 20, Some 30), (Some 40, Some 50, Some 60)]
          [255, 255] 1 wideImg 1
          [\<lparr>srcX = 0, srcY = 0, h = Some 0, rgb = (Some 10, Some 20, Some 30)\<rparr>,
           \<lparr>srcX = 0, srcY = 1, h = Some 0, rgb = (Some 40, Some 50, Some 60)\<rparr>] (hashCode ''wide'') =
        Some (Done (assignmentsOf 1
          [\<lparr>srcX = 0, srcY = 0, h = Some 0, rgb = (Some 10, Some 20, Some 30)\<rparr>,
           \<lparr>srcX = 0, srcY = 1, h = Some 0, rgb = (Some 40, Some 50, Some 60)\<rparr>]) wideImg)"
    by (intro generations_at_rest) (simp_all add: definedRgb_def)
  then show ?thesis
    by (simp add: processGenetic_def prepare_wide wide_fields assignmentsOf_def
        del: generations.simps)
qed


section \<open>The Greedy solver\<close>

text \<open>
  While fewer than \<open>n\<close> sources are assigned, the inner loop finds one: every score is
  a number, so the first candidate already beats \<open>Infinity\<close>. The loop therefore
  pushes one new index per target, the filler loop adds nothing, and a \<open>done\<close> message
  of the Greedy solver carries a permutation of \<open>[0, S \<cdot> S)\<close>. (The buffers are taken
  to hold whole pixels: their lengths are multiples of 3.)
\<close>

lemma extractRGB_defined:
  assumes "length img mod 3 = 0"
  shows "\<forall>c \<in> set (extractRGB img). definedRgb c"
  using assms
proof (induction img rule: extractRGB.induct)
  case (1 r g b rest)
  then show ?case by (simp add: definedRgb_def)
qed simp_all

lemma pickBest_result:
  assumes "pickBest prox sourcePixels (Some tc) (Some w) S t assigned cs best = Inr r"
    and "\<forall>c \<in> set sourcePixels. definedRgb c" "definedRgb tc" "0 \<le> w"
    and "case best of None \<Rightarrow> True | Some (i, v) \<Rightarrow> i \<notin> assigned \<and> i \<in> U"
    and "set cs \<subseteq> U"
  shows "(case r of None \<Rightarrow> best = None \<and> set cs \<subseteq> assigned
                 | Some (i, v) \<Rightarrow> i \<notin> assigned \<and> i \<in> U)"
  using assms
proof (induction cs arbitrary: best)
  case Nil
  then show ?case by (auto split: option.splits)
next
  case (Cons c cs)
  show ?case
  proof (cases "c \<in> assigned")
    case True
    then have "pickBest prox sourcePixels (Some tc) (Some w) S t assigned cs best = Inr r"
      using Cons.prems(1) by simp
    then show ?thesis
      using Cons.IH [of best] Cons.prems(2-6) True by (auto split: option.splits)
  next
    case False
    then obtain sc where sc: "nthOpt sourcePixels c = Some sc"
      using Cons.prems(1) by (auto split: option.splits)
    then have "sc \<in> set sourcePixels"
      by (auto simp: nthOpt_def split: if_splits)
    then have "definedRgb sc" using Cons.prems(2) by simp
    then obtain v where v: "heuristic (int (c mod S), int (c div S)) (int (t mod S), int (t div S))
                              sc tc (Some w) prox = Some v"
      using heuristic_nonneg [OF _ Cons.prems(3,4)] by blast
    let ?best = "if betterScore (Some v) best then Some (c, v) else best"
    have step: "pickBest prox sourcePixels (Some tc) (Some w) S t assigned cs ?best = Inr r"
      using Cons.prems(1) False sc v
      by (simp add: Let_def split del: if_split cong del: if_weak_cong)
    have some: "?best \<noteq> None"
      by (cases best) (auto simp: betterScore_def)
    have inv: "case ?best of None \<Rightarrow> True | Some (i, v) \<Rightarrow> i \<notin> assigned \<and> i \<in> U"
      using Cons.prems(5,6) False by (auto split: option.splits)
    have "set cs \<subseteq> U" using Cons.prems(6) by simp
    from Cons.IH [OF step Cons.prems(2-4) inv this] some
    show ?thesis by (auto split: option.splits)
  qed
qed

lemma pickBest_target_defined:
  assumes "pickBest prox sourcePixels tco wo S t assigned cs best = Inr r"
    and "\<not> set cs \<subseteq> assigned"
  shows "tco \<noteq> None"
  using assms
proof (induction cs arbitrary: best)
  case Nil
  then show ?case by simp
next
  case (Cons c cs)
  then show ?case by (auto split: if_splits option.splits)
qed

lemma greedyLoop_invariant:
  assumes "greedyLoop cancel prox sourcePixels targetPixels weights S n ts st = Inr st'"
    and "\<forall>c \<in> set sourcePixels. definedRgb c" "\<forall>c \<in> set targetPixels. definedRgb c"
    and "weights = replicate (length targetPixels) 255"
    and "fst st = set (fst (snd st))" "distinct (fst (snd st))" "set (fst (snd st)) \<subseteq> {0..<n}"
    and "length (fst (snd st)) + length ts \<le> n"
  shows "fst st' = set (fst (snd st')) \<and> distinct (fst (snd st')) \<and> set (fst (snd st')) \<subseteq> {0..<n} \<and>
         length (fst (snd st')) = length (fst (snd st)) + length ts"
  using assms
proof (induction ts arbitrary: st)
  case Nil
  then show ?case by simp
next
  case (Cons t ts)
  obtain assigned assignments posted where st: "st = (assigned, assignments, posted)"
    by (cases st) auto
  have a: "assigned = set assignments" "distinct assignments" "set assignments \<subseteq> {0..<n}"
    and len: "length assignments + Suc (length ts) \<le> n"
    using Cons.prems(5-8) by (simp_all add: st)
  have nc: "\<not> cancel posted" using Cons.prems(1) by (auto simp: st split: if_splits)
  obtain best where pb: "pickBest prox sourcePixels (nthOpt targetPixels t) (numAt weights t)
       S t assigned [0..<n] None = Inr best"
    using Cons.prems(1) nc by (auto simp: st split: sum.splits)
  have "card (set assignments) < n" using a(2) len by (simp add: distinct_card)
  then have "set assignments \<noteq> {0..<n}" by auto
  then have free: "\<not> set [0..<n] \<subseteq> assigned" using a(1,3) by auto
  have "nthOpt targetPixels t \<noteq> None"
    by (rule pickBest_target_defined [OF pb free])
  then obtain tc where tc: "nthOpt targetPixels t = Some tc" "t < length targetPixels"
    by (auto simp: nthOpt_def split: if_splits)
  then have dtc: "definedRgb tc" using Cons.prems(3) by (auto simp: nthOpt_def split: if_splits)
  have w: "numAt weights t = Some 255" using tc(2) Cons.prems(4) by (simp add: numAt_def)
  have res: "case best of None \<Rightarrow> None = (None :: (nat \<times> int) option) \<and> set [0..<n] \<subseteq> assigned
                 | Some (i, v) \<Rightarrow> i \<notin> assigned \<and> i \<in> {0..<n}"
    using pickBest_result [of prox sourcePixels tc 255 S t assigned "[0..<n]" None best "{0..<n}"]
      pb tc(1) w Cons.prems(2) dtc by simp
  then obtain i v where best: "best = Some (i, v)" "i \<notin> assigned" "i < n"
    using free by (cases best) auto
  let ?st = "(insert i assigned, assignments @ [i], if t mod 100 = 0 then posted + 2 else posted)"
  have step: "greedyLoop cancel prox sourcePixels targetPixels weights S n ts ?st = Inr st'"
    using Cons.prems(1) nc pb best(1) by (simp add: st)
  have "fst st' = set (fst (snd st')) \<and> distinct (fst (snd st')) \<and> set (fst (snd st')) \<subseteq> {0..<n} \<and>
         length (fst (snd st')) = length (fst (snd ?st)) + length ts"
    using a best(2,3) len by (intro Cons.IH [OF step Cons.prems(2-4)]) auto
  then show ?case by (simp add: st)
qed

lemma greedyLoop_stops:
  assumes "greedyLoop cancel prox sourcePixels targetPixels weights S n ts st = Inl out"
  shows "out = Cancelled \<or> out = Error"
  using assms
proof (induction ts arbitrary: st)
  case Nil
  then show ?case by simp
next
  case (Cons t ts)
  then show ?case
    by (auto split: prod.splits if_splits sum.splits option.splits)
qed

lemma full_permutation:
  assumes "distinct xs" "set xs \<subseteq> {0..<n}" "length xs = n"
  shows "set xs = {0..<n}"
proof -
  have "card (set xs) = card {0..<n}" using assms(1,3) by (simp add: distinct_card)
  then show ?thesis using assms(2) by (simp add: card_subset_eq)
qed

lemma applyCropScale_multiple:
  assumes "applyCropScale env img sw sh S cs = Inr out" "length img mod 3 = 0"
  shows "length out mod 3 = 0"
  using assms
  by (auto simp: applyCropScale_def Let_def length_intoArray split: option.splits if_splits)

lemma targetOf_defined:
  assumes "targetOf env settings sourcePixels = Inr targetPixels"
    and "\<forall>c \<in> set sourcePixels. definedRgb c"
    and "case customTarget settings of None \<Rightarrow> True | Some t \<Rightarrow> length (sourceImg t) mod 3 = 0"
  shows "\<forall>c \<in> set targetPixels. definedRgb c"
proof (cases "customTarget settings")
  case None
  then show ?thesis using assms(1,2) by (simp add: targetOf_def)
next
  case (Some t)
  then obtain timg where t: "applyCropScale env (sourceImg t) (width t) (height t) (sidelen settings)
        (targetCropScale settings) = Inr timg" "targetPixels = extractRGB timg"
    using assms(1) by (auto simp: targetOf_def split: sum.splits)
  have "length timg mod 3 = 0"
    using applyCropScale_multiple [OF t(1)] assms(3) Some by simp
  then show ?thesis using extractRGB_defined t(2) by simp
qed

lemma processOptimal_done_permutation:
  assumes "processOptimal env cancel source settings = Done a img"
    and "length (sourceImg source) mod 3 = 0"
    and "case customTarget settings of None \<Rightarrow> True | Some t \<Rightarrow> length (sourceImg t) mod 3 = 0"
  shows "length a = sidelen settings * sidelen settings \<and> distinct a \<and>
         set a = {0..<sidelen settings * sidelen settings}"
proof -
  let ?S = "sidelen settings" and ?n = "sidelen settings * sidelen settings"
  obtain img0 where c: "applyCropScale env (sourceImg source) (width source) (height source) ?S
       (sourceCropScale settings) = Inr img0"
    using assms(1) by (auto simp: processOptimal_def split: sum.splits)
  obtain targetPixels where t: "targetOf env settings (extractRGB img0) = Inr targetPixels"
    using assms(1) c by (auto simp: processOptimal_def split: sum.splits)
  have ds: "\<forall>c \<in> set (extractRGB img0). definedRgb c"
    using extractRGB_defined applyCropScale_multiple [OF c assms(2)] by simp
  have dt: "\<forall>c \<in> set targetPixels. definedRgb c"
    by (rule targetOf_defined [OF t ds assms(3)])
  obtain assigned assignments posted where
    g: "greedyLoop cancel (proximityImportance settings) (extractRGB img0) targetPixels
          (replicate (length targetPixels) 255) ?S ?n [0..<?n] ({}, [], 0) =
        Inr (assigned, assignments, posted)"
    and a: "a = fillIdentity ?n assignments"
    using assms(1) c t greedyLoop_stops
    by (fastforce simp: processOptimal_def Let_def split: sum.splits if_splits)
  have inv: "distinct assignments \<and> set assignments \<subseteq> {0..<?n} \<and> length assignments = ?n"
    using greedyLoop_invariant [OF g ds dt] by simp
  then have "a = assignments" by (simp add: a fillIdentity_def)
  then show ?thesis using inv full_permutation [of assignments ?n] by simp
qed

text \<open>On the second scenario of the specification the Greedy solver assigns \<open>[1, 0, 2, 3]\<close>.\<close>

lemma greedy_swap_of_two:
  "processOptimal quietCanvas (\<lambda>k. False) swapSource swapSettings =
     Done [1, 0, 2, 3] (sourceImg swapSource)"
  using crop22
  by (simp add: processOptimal_def swapSource_def swapSettings_def swapTarget_def applyCropScale_def Let_def
     quietCanvas_def targetOf_def nthOpt_def numAt_def heuristic_def num2_def sqDiff_def upt4
     betterScore_def fillIdentity_def)

section \<open>The distance policy of the drawing solver\<close>

lemma maxDist_formula: "maxDist a = round (32 * 0.99 powr (real_of_int a / 30))"
  by (simp add: maxDist_def DRAWING_CANVAS_SIZE_def)

lemma maxDist_nonneg: "0 \<le> maxDist a"
proof -
  have "(0::real) \<le> 32 * 0.99 powr (real_of_int a / 30)" by simp
  then have "round (0::real) \<le> round (32 * 0.99 powr (real_of_int a / 30))"
    by (rule round_mono)
  then show ?thesis by (simp add: maxDist_formula)
qed

lemma maxDist_0: "maxDist 0 = 32"
  by (simp add: maxDist_formula)

lemma maxDist_3000: "maxDist 3000 = 12"
proof -
  define q :: real where "q = 32 * (99 / 100) ^ 100"
  have p: "(0.99::real) powr 100 = (99 / 100) ^ 100"
    using powr_realpow [of "0.99::real" 100] by simp
  have lo: "(23::real) / 2 < q"
    by (simp add: q_def power_divide field_simps)
  have hi: "q < (25::real) / 2"
    by (simp add: q_def power_divide field_simps)
  have "round q = 12"
  proof (rule round_unique)
    show "q - 1 / 2 < of_int 12" using hi by simp
    show "of_int 12 \<le> q + 1 / 2" using lo by simp
  qed
  then show ?thesis by (simp add: maxDist_formula p q_def)
qed

lemma rng_g: "range 12345 0 256 = (250, 1831578158)"
  by (simp add: range_def rngNext_def fl53_def Let_def)

lemma rng_h: "range 12345 0 16384 = (16051, 1831578158)"
  by (simp add: range_def rngNext_def fl53_def Let_def)

lemma rng_i: "range 1831578158 (- 32) 33 = (- 13, 3663143971)"
  by (simp add: range_def rngNext_def fl53_def Let_def)

lemma rng_j: "range 3663143971 (- 32) 33 = (- 1, 5494709784)"
  by (simp add: range_def rngNext_def fl53_def Let_def)

lemma age_untouched: "ageAt (untouched n) p = 0"
  by (simp add: ageAt_def untouched_def)

lemma draw_small: "drawPositions (untouched 256) 256 16 12345 = ((250, 0, 14), 5494709784)"
  using rng_g rng_i rng_j
  by (simp add: drawPositions_def age_untouched maxDist_0 Let_def)

lemma age_once_a: "ageAt onceEdited 16051 = 0"
  by (simp add: ageAt_def onceEdited_def untouched_def)

lemma age_once_b: "ageAt onceEdited 15910 = 3000"
  by (simp add: ageAt_def onceEdited_def untouched_def)

lemma draw_full: "drawPositions onceEdited 16384 128 12345 = ((16051, 38, 124), 5494709784)"
  using rng_h rng_i rng_j age_once_a
  by (simp add: drawPositions_def maxDist_0 Let_def)

text \<open>
  C8 as stated fails: the radius is computed from the constant
  \<open>DRAWING_CANVAS_SIZE = 128\<close>, not from the configured \<open>sidelen\<close>. With
  \<open>sidelen = 16\<close> and no pixel ever edited, the first trial of the solver (generator
  seeded with 12345) draws \<open>a\<close> at column 10 of row 15 and \<open>b\<close> at column 0 of row 14:
  ten columns apart, where \<open>round((16 / 4) \<cdot> 0.99^0) = 4\<close>, and the pair is not
  rejected.
\<close>

theorem drawing_sidelen_counterexample:
  "drawPositions (untouched 256) 256 16 12345 = ((250, 0, 14), 5494709784) \<and>
   ageAt (untouched 256) 250 = 0 \<and>
   round (real 16 / 4 * 0.99 powr (real_of_int 0 / 30)) = (4::int) \<and>
   \<bar>0 - int (250 mod 16)\<bar> = 10 \<and>
   \<not> tooFar (untouched 256) 16 250 0 14"
  by (simp add: draw_small age_untouched tooFar_def maxDist_0 Let_def)

lemma clamp_near:
  fixes ax dx m S :: int
  assumes "0 \<le> ax" "ax \<le> S - 1" "- m \<le> dx" "dx \<le> m"
  shows "\<bar>min (S - 1) (max 0 (ax + dx)) - ax\<bar> \<le> m"
  using assms by (auto simp: min_def max_def)

text \<open>
  C8 (amended). With \<open>maxDist(age) = round(32 \<cdot> 0.99^(age / 30))\<close>, where 32 is
  \<open>DRAWING_CANVAS_SIZE / 4\<close> whatever the configured \<open>sidelen\<close>: in every trial of
  the drawing solver on a palette of at most \<open>S \<cdot> S\<close> pixels, \<open>b\<close> is drawn within
  \<open>maxDist(age(a))\<close> of \<open>a\<close> in each axis, and when \<open>|bx - ax|\<close> or \<open>|by - ay|\<close>
  exceeds \<open>maxDist(age(b))\<close> the trial is skipped: it changes nothing but the generator
  and cannot throw.
\<close>

theorem drawing_trial_distance:
  assumes "0 < length pixels" "length pixels \<le> S * S"
    and "drawPositions pixelData (length pixels) S rng = ((apos, bx, by), rng')"
  shows "maxDist a = round (32 * 0.99 powr (real_of_int a / 30)) \<and>
         \<bar>bx - int (apos mod S)\<bar> \<le> maxDist (ageAt pixelData apos) \<and>
         \<bar>by - int (apos div S)\<bar> \<le> maxDist (ageAt pixelData apos) \<and>
         (\<bar>bx - int (apos mod S)\<bar> > maxDist (ageAt pixelData (nat (by * int S + bx))) \<or>
          \<bar>by - int (apos div S)\<bar> > maxDist (ageAt pixelData (nat (by * int S + bx)))
          \<longrightarrow> drawTrial prox targetPixels weights colors pixelData S (pixels, k, rng) =
                Inr (pixels, k, rng'))"
proof -
  let ?n = "length pixels"
  obtain a0 r1 where r1: "range rng 0 (int ?n) = (a0, r1)" by (cases "range rng 0 (int ?n)")
  define m where "m = maxDist (ageAt pixelData (nat a0))"
  obtain dx r2 where r2: "range r1 (- m) (m + 1) = (dx, r2)" by (cases "range r1 (- m) (m + 1)")
  obtain dy r3 where r3: "range r2 (- m) (m + 1) = (dy, r3)" by (cases "range r2 (- m) (m + 1)")
  have eq: "apos = nat a0" "bx = min (int S - 1) (max 0 (a0 mod int S + dx))"
    "by = min (int S - 1) (max 0 (a0 div int S + dy))" "rng' = r3"
    using assms(3) by (simp_all add: drawPositions_def r1 r2 r3 m_def [symmetric] Let_def)
  have S: "0 < S" using assms(1,2) by (cases S) auto
  have a0: "0 \<le> a0" "a0 < int ?n"
    using range_bounds [of 0 "int ?n" rng] assms(1) r1 by simp_all
  have m0: "0 \<le> m" by (simp add: m_def maxDist_nonneg)
  have dx: "- m \<le> dx" "dx \<le> m"
    using range_bounds [of "- m" "m + 1" r1] m0 r2 by simp_all
  have dy: "- m \<le> dy" "dy \<le> m"
    using range_bounds [of "- m" "m + 1" r2] m0 r3 by simp_all
  have ax: "int (apos mod S) = a0 mod int S" "int (apos div S) = a0 div int S"
    using a0(1) by (simp_all add: eq(1) zmod_int zdiv_int)
  have axr: "0 \<le> a0 mod int S" "a0 mod int S \<le> int S - 1"
    using S by (simp_all add: zle_diff1_eq)
  have "apos < S * S" using a0 assms(2) by (simp add: eq(1))
  then have "apos div S < S" by (simp add: less_mult_imp_div_less)
  then have ayr: "0 \<le> a0 div int S" "a0 div int S \<le> int S - 1"
    using a0(1) S unfolding ax(2) [symmetric] by simp_all
  have mm: "maxDist (ageAt pixelData apos) = m" by (simp add: m_def eq(1))
  have bxn: "\<bar>bx - int (apos mod S)\<bar> \<le> m"
    unfolding ax eq(2) by (rule clamp_near [OF axr dx])
  have byn: "\<bar>by - int (apos div S)\<bar> \<le> m"
    unfolding ax eq(3) by (rule clamp_near [OF ayr dy])
  have rej: "drawTrial prox targetPixels weights colors pixelData S (pixels, k, rng) =
             Inr (pixels, k, rng')"
    if "tooFar pixelData S apos bx by"
    using that assms(3) by (simp add: drawTrial_def)
  have c2: "\<bar>bx - int (apos mod S)\<bar> \<le> maxDist (ageAt pixelData apos)"
    using bxn by (simp add: mm)
  have c3: "\<bar>by - int (apos div S)\<bar> \<le> maxDist (ageAt pixelData apos)"
    using byn by (simp add: mm)
  have c4: "\<bar>bx - int (apos mod S)\<bar> > maxDist (ageAt pixelData (nat (by * int S + bx))) \<or>
          \<bar>by - int (apos div S)\<bar> > maxDist (ageAt pixelData (nat (by * int S + bx)))
          \<longrightarrow> drawTrial prox targetPixels weights colors pixelData S (pixels, k, rng) =
                Inr (pixels, k, rng')"
    using rej by (simp add: tooFar_def Let_def)
  show ?thesis
    using maxDist_formula [of a] c2 c3 c4 by blast
qed

theorem drawing_trial_distance_witness:
  "0 < length blankPixels \<and> length blankPixels \<le> 128 * 128 \<and>
   drawPositions onceEdited (length blankPixels) 128 12345 = ((16051, 38, 124), 5494709784) \<and>
   maxDist 3000 = round (32 * 0.99 powr (real_of_int 3000 / 30)) \<and>
   maxDist (ageAt onceEdited 16051) = 32 \<and>
   \<bar>38 - int (16051 mod 128)\<bar> \<le> maxDist (ageAt onceEdited 16051) \<and>
   \<bar>124 - int (16051 div 128)\<bar> \<le> maxDist (ageAt onceEdited 16051) \<and>
   maxDist (ageAt onceEdited (nat (124 * int 128 + 38))) = 12 \<and>
   \<bar>38 - int (16051 mod 128)\<bar> > maxDist (ageAt onceEdited (nat (124 * int 128 + 38))) \<and>
   drawTrial 13 [] [] [] onceEdited 128 (blankPixels, 0, 12345) = Inr (blankPixels, 0, 5494709784)"
proof -
  have len: "length blankPixels = 16384" by (simp add: blankPixels_def)
  have hyps: "0 < length blankPixels" "length blankPixels \<le> 128 * 128"
    "drawPositions onceEdited (length blankPixels) 128 12345 = ((16051, 38, 124), 5494709784)"
    using draw_full by (simp_all add: len)
  have b: "nat (124 * int 128 + 38) = 15910" by simp
  show ?thesis
    using hyps drawing_trial_distance [OF hyps, of 3000 13 "[]" "[]" "[]" 0]
    by (simp add: b age_once_a age_once_b maxDist_0 maxDist_3000)
qed

section \<open>The two rasterizers\<close>
















































end
